theory Spec2Isabelle
  imports Main "HOL-Library.AList"
begin

section \<open>The ARI client: event dispatch, socket lifecycle and operation calls\<close>

text \<open>
  A shallow embedding of the client module (\<^verbatim>\<open>Client\<close>, \<^verbatim>\<open>Client.prototype.start\<close>,
  \<^verbatim>\<open>Client.prototype.stop\<close> and the \<^verbatim>\<open>callSwagger\<close> closure of
  \<^verbatim>\<open>Client.prototype._attachApi\<close>).

  Conventions of the embedding.
  \<^item> A handler is a function from the state it can reach to a \<open>result\<close>: it either
    returns or throws, and in both cases the result carries the state it left behind and
    the effects it performed up to that point, in order.
  \<^item> \<^verbatim>\<open>self.emit(...)\<close> is recorded as an effect. The listeners it reaches are code of
    the application: a call of \<^verbatim>\<open>emit\<close> is taken to return normally and to leave the
    client untouched. Which listeners a sequence of \<^verbatim>\<open>emit\<close> calls reaches is computed from
    the effects, with the emitter the client inherits from Node.
  \<^item> What the module obtains from \<^verbatim>\<open>require\<close> (the resource factories and
    \<^verbatim>\<open>knownTypes\<close> of the resource module, \<^verbatim>\<open>parseBodyParams\<close> of the utility module,
    the Swagger operations, the backoff function) and the builtin \<^verbatim>\<open>JSON.parse\<close> are
    parameters of the model.
\<close>

subsection \<open>Values\<close>

text \<open>The value \<^verbatim>\<open>JSON.parse\<close> returns. An object is its list of members; a member is
  looked up with \<open>map_of\<close>.\<close>

datatype json =
    JNull
  | JBool bool
  | JNum int
  | JStr string
  | JArr "json list"
  | JObj "(string \<times> json) list"

datatype js_error = SyntaxError | TypeError

text \<open>A resource instance as the dispatcher sees it: \<open>inst_id\<close> is the string
  \<^verbatim>\<open>instance._id().toString()\<close>.\<close>

record resource_instance =
  inst_type :: string
  inst_id :: string
  inst_values :: json

text \<open>One entry of \<^verbatim>\<open>_instanceListeners[eventType]\<close>:
  \<^verbatim>\<open>{'once': false, 'id': uniqueId, 'callback': callback}\<close>. A callback is named by a number.\<close>

record listener =
  once :: bool
  lid :: string
  callback :: nat

text \<open>A property of an event model: \<^verbatim>\<open>prop.name\<close>, \<^verbatim>\<open>prop.dataType\<close>.\<close>

record property =
  prop_name :: string
  dataType :: string

record eventModel =
  properties :: "property list"

text \<open>The third argument of \<^verbatim>\<open>self.emit(event.type, event, resources)\<close>.\<close>

datatype resources_arg =
    Undefined
  | Single resource_instance
  | Mapping "(string \<times> resource_instance) list"

datatype effect =
    Emit string json resources_arg
  | EmitMaxRetries "string option"
  | NewWebSocket string
  | ConnectScheduled
  | SocketCloseCalled

datatype 's result =
    Returned 's "effect list"
  | Thrown js_error 's "effect list"

text \<open>What the client module reads from its surroundings.
  \<^item> \<open>JSON_parse\<close>: the builtin; \<open>None\<close> when it throws a \<^verbatim>\<open>SyntaxError\<close>.
  \<^item> \<open>eventModels\<close>: \<^verbatim>\<open>self._swagger.apis.events.models\<close>, keyed by model name.
  \<^item> \<open>knownTypes\<close>: \<^verbatim>\<open>_resources.knownTypes\<close>.
  \<^item> \<open>resources\<close>: \<^verbatim>\<open>_resources[dataType]\<close>, the factory of a type applied to the
    client and a value (\<open>None\<close> for the value \<^verbatim>\<open>undefined\<close>); \<open>None\<close> where the member
    \<^verbatim>\<open>_resources[dataType]\<close> is \<^verbatim>\<open>undefined\<close>.\<close>

record env =
  JSON_parse :: "string \<Rightarrow> json option"
  eventModels :: "(string \<times> eventModel) list"
  knownTypes :: "string list"
  resources :: "string \<Rightarrow> (json option \<Rightarrow> resource_instance) option"

text \<open>The client object: the parts of \<^verbatim>\<open>self._connection\<close> the socket URL is built from,
  \<^verbatim>\<open>self._instanceListeners\<close>, \<^verbatim>\<open>self._wsClosed\<close> (falsy until
  \<^verbatim>\<open>stop\<close> sets it) and \<^verbatim>\<open>self._ws\<close> (the URL of the socket last created, \<open>None\<close>
  while \<^verbatim>\<open>undefined\<close>).\<close>

record connection =
  host :: string
  user :: string
  pass :: string

record client =
  connection :: connection
  instanceListeners :: "string \<Rightarrow> listener list option"
  wsClosed :: bool
  ws :: "string option"

subsection \<open>processMessage\<close>

text \<open>\<^verbatim>\<open>event.type\<close> and \<^verbatim>\<open>event[prop.name]\<close>: \<open>None\<close> is \<^verbatim>\<open>undefined\<close>. Reading a member of
  \<^verbatim>\<open>null\<close> throws; that case is taken before \<open>member\<close> is used. Only an object has
  members of its own here.\<close>

fun member :: "json \<Rightarrow> string \<Rightarrow> json option" where
  "member (JObj kvs) k = map_of kvs k"
| "member _ k = None"

text \<open>\<^verbatim>\<open>_.find(eventModels, function (item, key) { return key === event.type; })\<close>: the
  first model whose key is strictly equal to \<^verbatim>\<open>event.type\<close>, which only a string can be.
  The model is returned with its key, which is then \<^verbatim>\<open>event.type\<close> as a string.\<close>

definition find_model ::
  "(string \<times> eventModel) list \<Rightarrow> json option \<Rightarrow> (string \<times> eventModel) option" where
  "find_model models ty = find (\<lambda>(key, item). Some (JStr key) = ty) models"

text \<open>The body of \<^verbatim>\<open>_.each(listeners, function(listener) {...})\<close> with its two
  accumulators \<^verbatim>\<open>instanceIds\<close> and \<^verbatim>\<open>updatedListeners\<close>.\<close>

fun each_listener ::
  "string \<Rightarrow> listener list \<Rightarrow> string list \<times> listener list \<Rightarrow> string list \<times> listener list" where
  "each_listener instanceId [] acc = acc"
| "each_listener instanceId (l # ls) (instanceIds, updatedListeners) =
     each_listener instanceId ls
       (if lid l = instanceId then
          (if instanceId \<notin> set instanceIds then instanceIds @ [instanceId] else instanceIds,
           if \<not> once l then updatedListeners @ [l] else updatedListeners)
        else (instanceIds, updatedListeners @ [l]))"

text \<open>The test that guards the promotion of a property.\<close>

definition promotes :: "env \<Rightarrow> json \<Rightarrow> property \<Rightarrow> bool" where
  "promotes e event prop \<longleftrightarrow>
     dataType prop \<in> set (knownTypes e) \<and>
     member event (prop_name prop) \<noteq> None \<and>
     resources e (dataType prop) \<noteq> None"

text \<open>The instance a promoted property yields:
  \<^verbatim>\<open>_resources[prop.dataType](self, event[prop.name])\<close>. It is used under \<open>promotes\<close>
  only, where the factory exists (and the member is not \<^verbatim>\<open>undefined\<close>).\<close>

definition promote :: "env \<Rightarrow> json \<Rightarrow> property \<Rightarrow> resource_instance" where
  "promote e event prop =
     the (resources e (dataType prop)) (member event (prop_name prop))"

text \<open>The state of the loop over \<^verbatim>\<open>eventModel.properties\<close>: \<^verbatim>\<open>resources\<close> (an object, its
  keys in insertion order), \<^verbatim>\<open>instanceIds\<close> and \<^verbatim>\<open>self._instanceListeners\<close>.\<close>

type_synonym loop_state =
  "(string \<times> resource_instance) list \<times> string list \<times> (string \<Rightarrow> listener list option)"

definition each_property :: "env \<Rightarrow> string \<Rightarrow> json \<Rightarrow> loop_state \<Rightarrow> property \<Rightarrow> loop_state" where
  "each_property e ty event s prop =
     (case s of (res, instanceIds, table) \<Rightarrow>
        if promotes e event prop then
          (let inst = promote e event prop;
               res' = AList.update (prop_name prop) inst res;
               instanceId = inst_id inst
           in case table ty of
                None \<Rightarrow> (res', instanceIds, table)
              | Some listeners \<Rightarrow>
                  (case each_listener instanceId listeners (instanceIds, []) of
                     (instanceIds', updatedListeners) \<Rightarrow>
                       (res', instanceIds', table(ty \<mapsto> updatedListeners))))
        else s)"

definition resources_argument :: "(string \<times> resource_instance) list \<Rightarrow> resources_arg" where
  "resources_argument res =
     (let promoted = length (map fst res) in
        if promoted = 1 then Single (snd (hd res))
        else if promoted = 0 then Undefined
        else Mapping res)"

text \<open>\<^verbatim>\<open>util.format('%s-%s', event.type, instanceId)\<close> on two strings.\<close>

definition scoped_name :: "string \<Rightarrow> string \<Rightarrow> string" where
  "scoped_name ty instanceId = ty @ ''-'' @ instanceId"

definition emissions :: "string \<Rightarrow> json \<Rightarrow> resources_arg \<Rightarrow> string list \<Rightarrow> effect list" where
  "emissions ty event arg instanceIds =
     Emit ty event arg #
     (if length instanceIds > 0
      then map (\<lambda>instanceId. Emit (scoped_name ty instanceId) event arg) instanceIds
      else [])"

text \<open>\<^verbatim>\<open>var event = {}; if (msg) { event = JSON.parse(msg); }\<close>: \<open>None\<close> when the parse
  throws.\<close>

definition frame_event :: "env \<Rightarrow> string \<Rightarrow> json option" where
  "frame_event e msg = (if msg \<noteq> [] then JSON_parse e msg else Some (JObj []))"

definition processMessage :: "env \<Rightarrow> client \<Rightarrow> string \<Rightarrow> client result" where
  "processMessage e c msg =
     (case frame_event e msg of
        None \<Rightarrow> Thrown SyntaxError c []
      | Some event \<Rightarrow>
          if event = JNull then Thrown TypeError c []
          else
            (case find_model (eventModels e) (member event ''type'') of
               None \<Rightarrow> Thrown TypeError c []
             | Some (ty, eventModel) \<Rightarrow>
                 (case foldl (each_property e ty event)
                         ([], [], instanceListeners c) (properties eventModel) of
                    (res, instanceIds, table) \<Rightarrow>
                      Returned (c\<lparr>instanceListeners := table\<rparr>)
                        (emissions ty event (resources_argument res) instanceIds))))"

text \<open>The state a handler leaves behind and the effects it performed.\<close>

fun state_of :: "'s result \<Rightarrow> 's" where
  "state_of (Returned s effs) = s"
| "state_of (Thrown err s effs) = s"

fun effects_of :: "'s result \<Rightarrow> effect list" where
  "effects_of (Returned s effs) = effs"
| "effects_of (Thrown err s effs) = effs"

fun returns :: "'s result \<Rightarrow> bool" where
  "returns (Returned s effs) = True"
| "returns (Thrown err s effs) = False"

text \<open>The entries of the routing table under an event type; none when the key is
  absent.\<close>

definition listeners_of :: "client \<Rightarrow> string \<Rightarrow> listener list" where
  "listeners_of c ty = (case instanceListeners c ty of None \<Rightarrow> [] | Some ls \<Rightarrow> ls)"

text \<open>A frame carries the identity \<open>x\<close> under the event type \<open>ty\<close>: it parses, its type
  has a model, and one of the model's properties promotes to an instance whose identity is
  \<open>x\<close>.\<close>

definition carries :: "env \<Rightarrow> string \<Rightarrow> string \<Rightarrow> string \<Rightarrow> bool" where
  "carries e msg ty x \<longleftrightarrow>
     (case frame_event e msg of
        None \<Rightarrow> False
      | Some event \<Rightarrow>
          (case find_model (eventModels e) (member event ''type'') of
             None \<Rightarrow> False
           | Some (ty', eventModel) \<Rightarrow>
               ty' = ty \<and>
               list_ex (\<lambda>prop. promotes e event prop \<and> inst_id (promote e event prop) = x)
                 (properties eventModel)))"

text \<open>The number of times the scoped notification of the pair \<open>(ty, x)\<close> is emitted.\<close>

definition scoped_deliveries :: "string \<Rightarrow> string \<Rightarrow> effect list \<Rightarrow> nat" where
  "scoped_deliveries ty x effs =
     length (filter (\<lambda>eff. case eff of Emit name ev arg \<Rightarrow> name = scoped_name ty x | _ \<Rightarrow> False) effs)"

text \<open>The client after a sequence of frames, each handled in the state the previous
  handler left.\<close>

definition after_frames :: "env \<Rightarrow> client \<Rightarrow> string list \<Rightarrow> client" where
  "after_frames e c msgs = foldl (\<lambda>c msg. state_of (processMessage e c msg)) c msgs"

text \<open>The names a list of effects emits on the client.\<close>

fun emitted :: "effect list \<Rightarrow> string list" where
  "emitted [] = []"
| "emitted (Emit name ev arg # effs) = name # emitted effs"
| "emitted (EmitMaxRetries err # effs) = ''WebSocketMaxRetries'' # emitted effs"
| "emitted (eff # effs) = emitted effs"

subsection \<open>The listeners of the client\<close>

text \<open>Node's \<^verbatim>\<open>EventEmitter\<close>, which \<^verbatim>\<open>Client\<close> inherits
  (\<^verbatim>\<open>util.inherits(Client, events.EventEmitter)\<close>): under each event name the listeners
  attached, in the order they were attached, each with a mark that tells whether it was
  attached with \<^verbatim>\<open>once\<close>. A listener is named by a number, as in the routing table.\<close>

type_synonym emitter = "string \<Rightarrow> (nat \<times> bool) list"

definition EventEmitter_on :: "string \<Rightarrow> nat \<Rightarrow> emitter \<Rightarrow> emitter" where
  "EventEmitter_on name cb ee = ee(name := ee name @ [(cb, False)])"

definition EventEmitter_once :: "string \<Rightarrow> nat \<Rightarrow> emitter \<Rightarrow> emitter" where
  "EventEmitter_once name cb ee = ee(name := ee name @ [(cb, True)])"

text \<open>\<^verbatim>\<open>emit(name, ...)\<close>: every listener attached under the name is called, in order, and
  those attached with \<^verbatim>\<open>once\<close> are detached. The result is the listeners called and the
  emitter left. (The listeners are taken to return normally, as everywhere in this
  model.)\<close>

definition EventEmitter_emit :: "string \<Rightarrow> emitter \<Rightarrow> nat list \<times> emitter" where
  "EventEmitter_emit name ee =
     (map fst (ee name), ee(name := filter (\<lambda>l. \<not> snd l) (ee name)))"

text \<open>The calls of listeners a sequence of emitted names makes: each call is the listener
  and the name it was called under.\<close>

fun emit_all :: "emitter \<Rightarrow> string list \<Rightarrow> emitter \<times> (nat \<times> string) list" where
  "emit_all ee [] = (ee, [])"
| "emit_all ee (name # names) =
     (case EventEmitter_emit name ee of
        (cbs, ee1) \<Rightarrow>
          (case emit_all ee1 names of
             (ee2, invs) \<Rightarrow> (ee2, map (\<lambda>cb. (cb, name)) cbs @ invs)))"

text \<open>Modelled from the spec: the scoped \<^verbatim>\<open>on\<close> and \<^verbatim>\<open>once\<close> of a resource instance, which
  belong to the resource module and are not among the sources. Registering a listener for
  an event name on the instance of identity \<open>x\<close> adds the entry
  \<^verbatim>\<open>{once, id, callback}\<close> to the routing table under the event name (spec 3,
  \<^verbatim>\<open>instance_listeners\<close>; the comment in the \<^verbatim>\<open>Client\<close> constructor) and attaches the
  listener to the client under the name of the per-instance notification, the one
  \<^verbatim>\<open>processMessage\<close> emits for the pair (spec 4.5, step 5). A listener registered with
  \<^verbatim>\<open>once\<close> is attached with the emitter's \<^verbatim>\<open>once\<close>: it is removed after firing (spec 4.5,
  step 6).\<close>

definition Resource_on :: "string \<Rightarrow> string \<Rightarrow> nat \<Rightarrow> client \<times> emitter \<Rightarrow> client \<times> emitter" where
  "Resource_on ty x cb ce = (case ce of (c, ee) \<Rightarrow>
     (c\<lparr>instanceListeners :=
          (instanceListeners c)(ty \<mapsto> listeners_of c ty @ [\<lparr>once = False, lid = x, callback = cb\<rparr>])\<rparr>,
      EventEmitter_on (scoped_name ty x) cb ee))"

definition Resource_once :: "string \<Rightarrow> string \<Rightarrow> nat \<Rightarrow> client \<times> emitter \<Rightarrow> client \<times> emitter" where
  "Resource_once ty x cb ce = (case ce of (c, ee) \<Rightarrow>
     (c\<lparr>instanceListeners :=
          (instanceListeners c)(ty \<mapsto> listeners_of c ty @ [\<lparr>once = True, lid = x, callback = cb\<rparr>])\<rparr>,
      EventEmitter_once (scoped_name ty x) cb ee))"

text \<open>A frame handled by a client with its listeners: the handler runs, and the names it
  emitted reach the listeners in the order of the \<^verbatim>\<open>emit\<close> calls (which are the last
  statements of the handler). The result is the client and emitter left, and the calls
  of listeners made.\<close>

definition dispatch ::
  "env \<Rightarrow> client \<times> emitter \<Rightarrow> string \<Rightarrow> (client \<times> emitter) \<times> (nat \<times> string) list" where
  "dispatch e ce msg = (case ce of (c, ee) \<Rightarrow>
     (case emit_all ee (emitted (effects_of (processMessage e c msg))) of
        (ee', invs) \<Rightarrow> ((state_of (processMessage e c msg), ee'), invs)))"

fun dispatch_all ::
  "env \<Rightarrow> client \<times> emitter \<Rightarrow> string list \<Rightarrow> (client \<times> emitter) \<times> (nat \<times> string) list" where
  "dispatch_all e ce [] = (ce, [])"
| "dispatch_all e ce (msg # msgs) =
     (case dispatch e ce msg of
        (ce1, invs1) \<Rightarrow>
          (case dispatch_all e ce1 msgs of
             (ce2, invs2) \<Rightarrow> (ce2, invs1 @ invs2)))"

text \<open>How often a listener was called under a name, and how often it is attached under
  a name.\<close>

definition fired :: "nat \<Rightarrow> string \<Rightarrow> (nat \<times> string) list \<Rightarrow> nat" where
  "fired cb name invs = length (filter (\<lambda>inv. inv = (cb, name)) invs)"

definition attached :: "emitter \<Rightarrow> string \<Rightarrow> nat \<Rightarrow> nat" where
  "attached ee name cb = length (filter (\<lambda>l. fst l = cb) (ee name))"

text \<open>Every attachment of a listener under a name was made with \<^verbatim>\<open>once\<close>.\<close>

definition once_only :: "emitter \<Rightarrow> string \<Rightarrow> nat \<Rightarrow> bool" where
  "once_only ee name cb \<longleftrightarrow> (\<forall>l \<in> set (ee name). fst l = cb \<longrightarrow> snd l)"

subsection \<open>The socket lifecycle: start and stop\<close>

text \<open>The function \<^verbatim>\<open>backoff.create({delay: 100})\<close> returns belongs to an external module.
  It is called with the function to schedule and answers whether it scheduled it. The
  model keeps the delay it was created with and the number of calls made so far; the
  module's answer to its \<open>n\<close>-th call is the parameter \<open>accepts\<close>.\<close>

record backoff =
  delay :: nat
  accepts :: "nat \<Rightarrow> bool"
  calls :: nat

definition backoff_create :: "(nat \<Rightarrow> bool) \<Rightarrow> nat \<Rightarrow> backoff" where
  "backoff_create policy d = \<lparr>delay = d, accepts = policy, calls = 0\<rparr>"

definition retry_call :: "backoff \<Rightarrow> bool \<times> backoff" where
  "retry_call b = (accepts b (calls b), b\<lparr>calls := Suc (calls b)\<rparr>)"

text \<open>The variables of one call of \<^verbatim>\<open>start\<close>, shared by the handlers it defines.\<close>

record start_scope =
  processingError :: bool
  wsUrl :: string
  retry :: backoff

datatype apps = App string | Apps "string list"

text \<open>\<^verbatim>\<open>apps.join(',')\<close>\<close>

fun join :: "string list \<Rightarrow> string" where
  "join [] = []"
| "join [a] = a"
| "join (a # b # rest) = a @ '','' @ join (b # rest)"

definition applications :: "apps \<Rightarrow> string" where
  "applications a = (case a of Apps names \<Rightarrow> join names | App name \<Rightarrow> name)"

definition connect :: "client \<times> start_scope \<Rightarrow> (client \<times> start_scope) result" where
  "connect cs = (case cs of (c, s) \<Rightarrow>
     Returned (c\<lparr>ws := Some (wsUrl s)\<rparr>, s) [NewWebSocket (wsUrl s)])"

definition start :: "(nat \<Rightarrow> bool) \<Rightarrow> client \<Rightarrow> apps \<Rightarrow> (client \<times> start_scope) result" where
  "start policy c a =
     connect (c,
       \<lparr>processingError = False,
        wsUrl = ''ws://'' @ host (connection c) @ ''/ari/events?app='' @ applications a @
                ''&api_key='' @ user (connection c) @ '':'' @ pass (connection c),
        retry = backoff_create policy 100\<rparr>)"

definition reconnect ::
  "string option \<Rightarrow> client \<times> start_scope \<Rightarrow> (client \<times> start_scope) result" where
  "reconnect err cs = (case cs of (c, s) \<Rightarrow>
     (case retry_call (retry s) of (scheduled, r) \<Rightarrow>
        Returned (c, s\<lparr>retry := r\<rparr>)
          (if \<not> scheduled then [EmitMaxRetries err] else [ConnectScheduled])))"

definition processOpen :: "client \<times> start_scope \<Rightarrow> (client \<times> start_scope) result" where
  "processOpen cs = (case cs of (c, s) \<Rightarrow> Returned (c, s\<lparr>processingError := False\<rparr>) [])"

definition processClose :: "client \<times> start_scope \<Rightarrow> (client \<times> start_scope) result" where
  "processClose cs = (case cs of (c, s) \<Rightarrow>
     if wsClosed c then Returned (c\<lparr>wsClosed := False\<rparr>, s) []
     else if \<not> processingError s then reconnect None (c, s)
     else Returned (c, s) [])"

definition processError :: "string \<Rightarrow> client \<times> start_scope \<Rightarrow> (client \<times> start_scope) result" where
  "processError err cs = (case cs of (c, s) \<Rightarrow>
     if wsClosed c then Returned (c, s) []
     else reconnect (Some err) (c, s\<lparr>processingError := True\<rparr>))"

text \<open>\<^verbatim>\<open>self._ws.close(); self._wsClosed = true;\<close>: with no socket yet the first statement
  throws.\<close>

definition stop :: "client \<Rightarrow> client result" where
  "stop c = (case ws c of
               None \<Rightarrow> Thrown TypeError c []
             | Some u \<Rightarrow> Returned (c\<lparr>wsClosed := True\<rparr>) [SocketCloseCalled])"

text \<open>What can happen to a started client: an event of its socket, the timer of a
  scheduled \<^verbatim>\<open>connect\<close>, or a call of \<^verbatim>\<open>stop\<close>.\<close>

datatype input =
    SocketOpen
  | SocketClose
  | SocketError string
  | SocketMessage string
  | ConnectTimer
  | CallStop

fun on_client :: "client result \<Rightarrow> start_scope \<Rightarrow> (client \<times> start_scope) result" where
  "on_client (Returned c effs) s = Returned (c, s) effs"
| "on_client (Thrown err c effs) s = Thrown err (c, s) effs"

fun handle :: "env \<Rightarrow> input \<Rightarrow> client \<times> start_scope \<Rightarrow> (client \<times> start_scope) result" where
  "handle e SocketOpen cs = processOpen cs"
| "handle e SocketClose cs = processClose cs"
| "handle e (SocketError err) cs = processError err cs"
| "handle e (SocketMessage msg) (c, s) = on_client (processMessage e c msg) s"
| "handle e ConnectTimer cs = connect cs"
| "handle e CallStop (c, s) = on_client (stop c) s"

text \<open>A sequence of inputs, each handled in the state the previous handler left; the
  effects are collected in order.\<close>

fun run :: "env \<Rightarrow> input list \<Rightarrow> client \<times> start_scope \<Rightarrow> (client \<times> start_scope) \<times> effect list" where
  "run e [] cs = (cs, [])"
| "run e (i # is) cs =
     (case run e is (state_of (handle e i cs)) of
        (cs', effs) \<Rightarrow> (cs', effects_of (handle e i cs) @ effs))"

text \<open>The number of reconnects a list of effects schedules.\<close>

definition reconnects :: "effect list \<Rightarrow> nat" where
  "reconnects effs = length (filter (\<lambda>eff. eff = ConnectScheduled) effs)"

subsection \<open>Operation calls: callSwagger\<close>

text \<open>The arguments of an operation are JavaScript values. An object is a reference into
  a store of objects, so that a copy and its original are told apart; the store is a list
  and a reference is a position in it. Arrays and functions are not written to by the
  code modelled here and are carried as values.\<close>

datatype jsval =
    VUndefined
  | VNull
  | VBool bool
  | VNumber int
  | VString string
  | VFunction nat
  | VArray "jsval list"
  | VObject nat

type_synonym object = "(string \<times> jsval) list"

type_synonym heap = "object list"

fun isFunction :: "jsval \<Rightarrow> bool" where
  "isFunction (VFunction f) = True"
| "isFunction _ = False"

fun isArray :: "jsval \<Rightarrow> bool" where
  "isArray (VArray xs) = True"
| "isArray _ = False"

text \<open>\<^verbatim>\<open>_.first(args)\<close> and \<^verbatim>\<open>_.last(args)\<close>: \<^verbatim>\<open>undefined\<close> on no arguments.\<close>

fun first :: "jsval list \<Rightarrow> jsval" where
  "first [] = VUndefined"
| "first (x # xs) = x"

fun last_arg :: "jsval list \<Rightarrow> jsval" where
  "last_arg [] = VUndefined"
| "last_arg (x # xs) = last (x # xs)"

text \<open>\<^verbatim>\<open>_.clone(options)\<close>: a new object with the members of the old one; a value that is
  not an object is returned as it is. A reference to no object does not occur in a
  program; it is returned unchanged.\<close>

definition clone :: "jsval \<Rightarrow> heap \<Rightarrow> jsval \<times> heap" where
  "clone v h =
     (case v of
        VObject a \<Rightarrow> if a < length h then (VObject (length h), h @ [h ! a]) else (v, h)
      | _ \<Rightarrow> (v, h))"

text \<open>\<^verbatim>\<open>response.data\<close> and \<^verbatim>\<open>err.data\<close>: a buffer or a string, read with
  \<^verbatim>\<open>toString('utf-8')\<close>. A buffer is truthy, a string is truthy when it is not empty.\<close>

datatype body = Buffer string | Text string

fun body_toString :: "body \<Rightarrow> string" where
  "body_toString (Buffer s) = s"
| "body_toString (Text s) = s"

fun truthy :: "body \<Rightarrow> bool" where
  "truthy (Buffer s) = True"
| "truthy (Text s) = (s \<noteq> [])"

text \<open>The argument of the error callback: falsy, or an object whose \<^verbatim>\<open>data\<close> may be
  missing.\<close>

datatype swagger_err = NoErr | Err "body option"

datatype swagger_reply = Response body | Failure swagger_err

text \<open>The first argument the user's callback receives: \<^verbatim>\<open>null\<close>, a
  \<^verbatim>\<open>new Error(message)\<close>, or the value Swagger passed.\<close>

datatype callback_error = Null | NewError string | Passed swagger_err

datatype op_result =
    Plain json
  | Instance resource_instance
  | Instances "resource_instance list"

text \<open>What one operation call does with the user's callback: it calls it with an error
  and possibly a result, calls nothing, or throws.\<close>

datatype call_result =
    CallbackInvoked nat callback_error "op_result option"
  | NothingCalled
  | CallThrown js_error

text \<open>\<^verbatim>\<open>oper.type\<close> after the list syntax has been taken off, \<^verbatim>\<open>multi\<close> and
  \<^verbatim>\<open>oper.parameters\<close>: the variables \<^verbatim>\<open>attachOperation\<close> leaves to \<^verbatim>\<open>callSwagger\<close>.\<close>

datatype resp_type = TypeNull | TypeUndefined | TypeName string

record parameter =
  param_name :: string
  paramType :: string

record operation =
  params :: "parameter list"
  respType :: resp_type
  multi :: bool

text \<open>The code \<^verbatim>\<open>callSwagger\<close> hands the options to: \<^verbatim>\<open>_utils.parseBodyParams\<close>, which
  returns the options to use, and the Swagger operation, whose one completion (a response
  or an error) is its result here. Both may write to the store.\<close>

record swagger =
  parseBodyParams :: "parameter list \<Rightarrow> jsval \<Rightarrow> heap \<Rightarrow> jsval \<times> heap"
  operation_call :: "jsval \<Rightarrow> heap \<Rightarrow> swagger_reply \<times> heap"

definition swaggerError :: "jsval \<Rightarrow> swagger_err \<Rightarrow> call_result" where
  "swaggerError userCallback err =
     (let err' = (case err of
                    Err (Some d) \<Rightarrow> if truthy d then NewError (body_toString d) else Passed err
                  | _ \<Rightarrow> Passed err)
      in case userCallback of
           VFunction f \<Rightarrow> CallbackInvoked f err' None
         | _ \<Rightarrow> CallThrown TypeError)"

text \<open>The decimal name of an index, as in \<^verbatim>\<open>obj[i]\<close>.\<close>

fun index_name :: "nat \<Rightarrow> string" where
  "index_name n =
     (if n < 10 then [char_of (48 + n)]
      else index_name (n div 10) @ [char_of (48 + n mod 10)])"

text \<open>The values \<^verbatim>\<open>_.map(result, ...)\<close> visits. Whatever has a numeric \<^verbatim>\<open>length\<close> is
  visited by index from 0 up to that length: the elements of an array, the characters of a
  string, and for an object with a numeric member \<^verbatim>\<open>length\<close> its members named by the
  indices (\<^verbatim>\<open>undefined\<close>, here \<open>None\<close>, where there is none). Any other object is
  visited by its keys, in the order the object lists its members. Nothing is visited
  otherwise.\<close>

fun elements :: "json \<Rightarrow> json option list" where
  "elements (JArr xs) = map Some xs"
| "elements (JStr s) = map (\<lambda>ch. Some (JStr [ch])) s"
| "elements (JObj kvs) =
     (case map_of kvs ''length'' of
        Some (JNum n) \<Rightarrow> map (\<lambda>i. map_of kvs (index_name i)) [0..<nat n]
      | _ \<Rightarrow> map (map_of kvs) (remdups (map fst kvs)))"
| "elements _ = []"

definition processResponse :: "env \<Rightarrow> operation \<Rightarrow> jsval \<Rightarrow> body \<Rightarrow> call_result" where
  "processResponse e oper userCallback data =
     (case userCallback of
        VFunction f \<Rightarrow>
          (let raw = body_toString data in
           case (if respType oper \<noteq> TypeNull \<and> raw \<noteq> [] then JSON_parse e raw
                 else Some (JStr raw)) of
             None \<Rightarrow> CallThrown SyntaxError
           | Some result \<Rightarrow>
               CallbackInvoked f Null (Some
                 (case respType oper of
                    TypeName t \<Rightarrow>
                      (case (if t \<in> set (knownTypes e) then resources e t else None) of
                         Some factory \<Rightarrow>
                           if multi oper then Instances (map factory (elements result))
                           else Instance (factory (Some result))
                       | None \<Rightarrow> Plain result)
                  | _ \<Rightarrow> Plain result)))
      | _ \<Rightarrow> NothingCalled)"

text \<open>The two callbacks \<^verbatim>\<open>callSwagger\<close> injects, applied to the completion of the
  operation.\<close>

definition complete :: "env \<Rightarrow> operation \<Rightarrow> jsval \<Rightarrow> swagger_reply \<Rightarrow> call_result" where
  "complete e oper userCallback reply =
     (case reply of
        Response data \<Rightarrow> processResponse e oper userCallback data
      | Failure err \<Rightarrow> swaggerError userCallback err)"

text \<open>The options \<^verbatim>\<open>callSwagger\<close> passes on: a new empty object, or the copy of the
  caller's options as \<^verbatim>\<open>parseBodyParams\<close> returns it.\<close>

definition prepare :: "swagger \<Rightarrow> operation \<Rightarrow> jsval list \<Rightarrow> heap \<Rightarrow> jsval \<times> heap" where
  "prepare sw oper args h =
     (let options = first args in
        if options = VUndefined \<or> options = VNull \<or> isFunction options \<or> isArray options
        then (VObject (length h), h @ [[]])
        else (case clone options h of
                (copy, h') \<Rightarrow> parseBodyParams sw (params oper) copy h'))"

definition callSwagger ::
  "env \<Rightarrow> swagger \<Rightarrow> operation \<Rightarrow> jsval list \<Rightarrow> heap \<Rightarrow> call_result \<times> heap" where
  "callSwagger e sw oper args h =
     (let userCallback = last_arg args in
        case prepare sw oper args h of
          (options, h1) \<Rightarrow>
            (case operation_call sw options h1 of
               (reply, h2) \<Rightarrow> (complete e oper userCallback reply, h2)))"

text \<open>The completion of the operation in a call: what the Swagger operation answers to
  the options \<^verbatim>\<open>callSwagger\<close> hands it.\<close>

definition reply_of :: "swagger \<Rightarrow> operation \<Rightarrow> jsval list \<Rightarrow> heap \<Rightarrow> swagger_reply" where
  "reply_of sw oper args h =
     fst (operation_call sw (fst (prepare sw oper args h)) (snd (prepare sw oper args h)))"

text \<open>The contract of the code the options are handed to: it writes to no object of the
  store but the one it is handed (it may add objects), and what \<^verbatim>\<open>parseBodyParams\<close>
  returns is its argument or no object that existed before.\<close>

definition writes_argument_only :: "(jsval \<Rightarrow> heap \<Rightarrow> 'a \<times> heap) \<Rightarrow> bool" where
  "writes_argument_only f \<longleftrightarrow>
     (\<forall>v h b. b < length h \<and> v \<noteq> VObject b \<longrightarrow>
        length h \<le> length (snd (f v h)) \<and> snd (f v h) ! b = h ! b)"

definition returns_argument_or_new :: "(jsval \<Rightarrow> heap \<Rightarrow> jsval \<times> heap) \<Rightarrow> bool" where
  "returns_argument_or_new f \<longleftrightarrow>
     (\<forall>v h b. fst (f v h) = VObject b \<and> b < length h \<longrightarrow> v = VObject b)"

subsection \<open>Notions the statements below are written with\<close>

text \<open>The properties of a model that promote against an event, in the model's order, and
  the identities of the instances they yield.\<close>

definition promoted :: "env \<Rightarrow> json \<Rightarrow> property list \<Rightarrow> property list" where
  "promoted e event props = filter (promotes e event) props"

definition promoted_ids :: "env \<Rightarrow> json \<Rightarrow> property list \<Rightarrow> string list" where
  "promoted_ids e event props =
     map (\<lambda>prop. inst_id (promote e event prop)) (promoted e event props)"

subsection \<open>A schema, a client and frames to run the model on\<close>

text \<open>Modelled from the spec: the factories of the resource module, which is not among
  the sources. An instance is identified by \<^verbatim>\<open>id\<close> (Channel, Bridge, Playback) or by
  \<^verbatim>\<open>name\<close> (LiveRecording, Mailbox, Sound, DeviceState, Endpoint), read from the value it
  is seeded with; an instance seeded without one gets a generated identifier, for which a
  fixed string stands here.\<close>

definition demo_factory :: "string \<Rightarrow> string \<Rightarrow> json option \<Rightarrow> resource_instance" where
  "demo_factory ty key v =
     (case v of
        None \<Rightarrow> \<lparr>inst_type = ty, inst_id = ''generated'', inst_values = JObj []\<rparr>
      | Some values \<Rightarrow>
          \<lparr>inst_type = ty,
           inst_id = (case member values key of Some (JStr s) \<Rightarrow> s | _ \<Rightarrow> ''generated''),
           inst_values = values\<rparr>)"

definition demo_knownTypes :: "string list" where
  "demo_knownTypes = [''Channel'', ''Bridge'', ''Playback'', ''LiveRecording'']"

definition demo_resources :: "string \<Rightarrow> (json option \<Rightarrow> resource_instance) option" where
  "demo_resources ty =
     (if ty = ''Channel'' \<or> ty = ''Bridge'' \<or> ty = ''Playback'' then Some (demo_factory ty ''id'')
      else if ty = ''LiveRecording'' then Some (demo_factory ty ''name'')
      else None)"

definition demo_models :: "(string \<times> eventModel) list" where
  "demo_models =
     [(''ChannelDtmfReceived'',
         \<lparr>properties = [\<lparr>prop_name = ''digit'', dataType = ''string''\<rparr>,
                        \<lparr>prop_name = ''channel'', dataType = ''Channel''\<rparr>]\<rparr>),
      (''ChannelEnteredBridge'',
         \<lparr>properties = [\<lparr>prop_name = ''bridge'', dataType = ''Bridge''\<rparr>,
                        \<lparr>prop_name = ''channel'', dataType = ''Channel''\<rparr>]\<rparr>),
      (''Dial'',
         \<lparr>properties = [\<lparr>prop_name = ''caller'', dataType = ''Channel''\<rparr>,
                        \<lparr>prop_name = ''peer'', dataType = ''Channel''\<rparr>,
                        \<lparr>prop_name = ''dialstatus'', dataType = ''string''\<rparr>]\<rparr>),
      (''ApplicationReplaced'',
         \<lparr>properties = [\<lparr>prop_name = ''application'', dataType = ''string''\<rparr>]\<rparr>)]"

text \<open>Six frames and what \<^verbatim>\<open>JSON.parse\<close> makes of them (and of one response body); the
  fifth is cut short and does not parse, the sixth names a type the schema has no model
  for.\<close>

definition frame_dtmf :: string where
  "frame_dtmf = ''{\"type\":\"ChannelDtmfReceived\",\"digit\":\"1\",\"channel\":{\"id\":\"c1\"}}''"

definition frame_entered :: string where
  "frame_entered = ''{\"type\":\"ChannelEnteredBridge\",\"bridge\":{\"id\":\"b1\"},\"channel\":{\"id\":\"c1\"}}''"

definition frame_dial :: string where
  "frame_dial = ''{\"type\":\"Dial\",\"caller\":{\"id\":\"c1\"},\"peer\":{\"id\":\"c1\"},\"dialstatus\":\"\"}''"

definition frame_replaced :: string where
  "frame_replaced = ''{\"type\":\"ApplicationReplaced\",\"application\":\"demo\"}''"

definition frame_cut :: string where
  "frame_cut = ''{\"type\":\"ChannelDtmfRec''"

definition frame_unknown :: string where
  "frame_unknown = ''{\"type\":\"Bogus\"}''"

definition demo_parse :: "string \<Rightarrow> json option" where
  "demo_parse frame =
     (if frame = frame_dtmf then
        Some (JObj [(''type'', JStr ''ChannelDtmfReceived''), (''digit'', JStr ''1''),
                    (''channel'', JObj [(''id'', JStr ''c1'')])])
      else if frame = frame_entered then
        Some (JObj [(''type'', JStr ''ChannelEnteredBridge''),
                    (''bridge'', JObj [(''id'', JStr ''b1'')]),
                    (''channel'', JObj [(''id'', JStr ''c1'')])])
      else if frame = frame_dial then
        Some (JObj [(''type'', JStr ''Dial''), (''caller'', JObj [(''id'', JStr ''c1'')]),
                    (''peer'', JObj [(''id'', JStr ''c1'')]), (''dialstatus'', JStr [])])
      else if frame = frame_replaced then
        Some (JObj [(''type'', JStr ''ApplicationReplaced''), (''application'', JStr ''demo'')])
      else if frame = frame_unknown then
        Some (JObj [(''type'', JStr ''Bogus'')])
      else if frame = ''{\"id\":\"1\"}'' then
        Some (JObj [(''id'', JStr ''1'')])
      else None)"

definition demo_env :: env where
  "demo_env = \<lparr>JSON_parse = demo_parse, eventModels = demo_models,
                knownTypes = demo_knownTypes, resources = demo_resources\<rparr>"

text \<open>A client with a \<^verbatim>\<open>once\<close> listener and a lasting one on channel \<^verbatim>\<open>c1\<close>, and a
  lasting one on channel \<^verbatim>\<open>c2\<close>.\<close>

definition demo_listeners :: "string \<Rightarrow> listener list option" where
  "demo_listeners =
     [''ChannelDtmfReceived'' \<mapsto>
        [\<lparr>once = True, lid = ''c1'', callback = 0\<rparr>,
         \<lparr>once = False, lid = ''c2'', callback = 1\<rparr>],
      ''Dial'' \<mapsto> [\<lparr>once = False, lid = ''c1'', callback = 2\<rparr>]]"

definition demo_client :: client where
  "demo_client =
     \<lparr>connection = \<lparr>host = ''localhost:8088'', user = ''user'', pass = ''secret''\<rparr>,
      instanceListeners = demo_listeners,
      wsClosed = False,
      ws = Some ''ws://localhost:8088/ari/events?app=demo&api_key=user:secret''\<rparr>"

text \<open>A started client: the scope \<^verbatim>\<open>start\<close> sets up, with a backoff function that
  schedules its first ten calls.\<close>

definition demo_policy :: "nat \<Rightarrow> bool" where
  "demo_policy n \<longleftrightarrow> n < 10"

definition demo_scope :: start_scope where
  "demo_scope =
     \<lparr>processingError = False,
      wsUrl = ''ws://localhost:8088/ari/events?app=demo&api_key=user:secret'',
      retry = \<lparr>delay = 100, accepts = demo_policy, calls = 0\<rparr>\<rparr>"

text \<open>Modelled from the spec: \<^verbatim>\<open>parseBodyParams\<close> of the utility module, which is not among
  the sources. The members of the options that are body parameters of the operation are
  collected into one body; this is done in place, on the object handed in, and the body is
  a new object.\<close>

definition demo_parseBodyParams :: "parameter list \<Rightarrow> jsval \<Rightarrow> heap \<Rightarrow> jsval \<times> heap" where
  "demo_parseBodyParams ps v h =
     (case v of
        VObject a \<Rightarrow>
          if a < length h then
            (let bodyNames = map param_name (filter (\<lambda>p. paramType p = ''body'') ps) in
               if list_ex (\<lambda>kv. fst kv \<in> set bodyNames) (h ! a)
               then (v, h[a := filter (\<lambda>kv. fst kv \<notin> set bodyNames) (h ! a)
                                 @ [(''body'', VObject (length h))]]
                        @ [filter (\<lambda>kv. fst kv \<in> set bodyNames) (h ! a)])
               else (v, h))
          else (v, h)
      | _ \<Rightarrow> (v, h))"

text \<open>A stand-in for a Swagger operation: it alters the options it is passed (it adds a
  member) and completes with the given reply.\<close>

definition demo_call :: "swagger_reply \<Rightarrow> jsval \<Rightarrow> heap \<Rightarrow> swagger_reply \<times> heap" where
  "demo_call reply v h =
     (case v of
        VObject a \<Rightarrow>
          if a < length h then (reply, h[a := h ! a @ [(''headers'', VNull)]]) else (reply, h)
      | _ \<Rightarrow> (reply, h))"

definition demo_swagger :: "swagger_reply \<Rightarrow> swagger" where
  "demo_swagger reply =
     \<lparr>parseBodyParams = demo_parseBodyParams, operation_call = demo_call reply\<rparr>"

text \<open>The operation \<^verbatim>\<open>channels.originate\<close>, and a caller's store: the options at position
  0 and the object of its \<^verbatim>\<open>variables\<close> member at position 1.\<close>

definition demo_originate :: operation where
  "demo_originate =
     \<lparr>params = [\<lparr>param_name = ''endpoint'', paramType = ''query''\<rparr>,
                \<lparr>param_name = ''app'', paramType = ''query''\<rparr>,
                \<lparr>param_name = ''variables'', paramType = ''body''\<rparr>],
      respType = TypeName ''Channel'',
      multi = False\<rparr>"

definition demo_heap :: heap where
  "demo_heap =
     [[(''endpoint'', VString ''PJSIP/softphone''), (''app'', VString ''u''),
       (''variables'', VObject 1)],
      [(''CALLERID(name)'', VString ''Alice'')]]"

definition not_found :: swagger_reply where
  "not_found = Failure (Err (Some (Buffer ''{\"message\":\"Bridge not found\"}'')))"

definition created :: swagger_reply where
  "created = Response (Buffer ''{\"id\":\"1\"}'')"

text \<open>A client with no scoped listener yet and one listener, 9, for every
  \<^verbatim>\<open>ChannelDtmfReceived\<close>; then a lasting listener, 5, registered on channel \<^verbatim>\<open>c1\<close> for
  that event.\<close>

definition demo_plain :: "client \<times> emitter" where
  "demo_plain =
     (demo_client\<lparr>instanceListeners := Map.empty\<rparr>,
      EventEmitter_on ''ChannelDtmfReceived'' 9 (\<lambda>name. []))"

definition demo_listening :: "client \<times> emitter" where
  "demo_listening = Resource_on ''ChannelDtmfReceived'' ''c1'' 5 demo_plain"

section \<open>Event dispatch\<close>

subsection \<open>The two loops of processMessage\<close>

lemma each_listener_eq:
  "each_listener x ls (ids, upd) =
     ((if list_ex (\<lambda>l. lid l = x) ls \<and> x \<notin> set ids then ids @ [x] else ids),
      upd @ filter (\<lambda>l. \<not> (lid l = x \<and> once l)) ls)"
  by (induction ls arbitrary: ids upd) auto

lemma update_fresh: "k \<notin> fst ` set al \<Longrightarrow> AList.update k v al = al @ [(k, v)]"
  by (induction al) auto

lemma each_property_step:
  "each_property e ty ev (res, ids, tbl) p =
     (if promotes e ev p then
        (AList.update (prop_name p) (promote e ev p) res,
         (case tbl ty of None \<Rightarrow> ids
          | Some ls \<Rightarrow> if list_ex (\<lambda>l. lid l = inst_id (promote e ev p)) ls
                         \<and> inst_id (promote e ev p) \<notin> set ids
                       then ids @ [inst_id (promote e ev p)] else ids),
         (case tbl ty of None \<Rightarrow> tbl
          | Some ls \<Rightarrow> tbl(ty \<mapsto> filter (\<lambda>l. \<not> (lid l = inst_id (promote e ev p) \<and> once l)) ls)))
      else (res, ids, tbl))"
  by (simp add: each_property_def Let_def each_listener_eq split: option.splits)

lemma loop_distinct:
  "foldl (each_property e ty ev) (res, ids, tbl) ps = (res', ids', tbl') \<Longrightarrow>
   distinct ids \<Longrightarrow> distinct ids'"
proof (induction ps arbitrary: res ids tbl)
  case Nil
  then show ?case by simp
next
  case (Cons p ps)
  then show ?case
    by (simp add: each_property_step split: if_splits option.splits)
qed

lemma loop_table:
  "foldl (each_property e ty ev) (res, ids, tbl) ps = (res', ids', tbl') \<Longrightarrow>
   tbl' k = (if k = ty
             then map_option (filter (\<lambda>l. \<not> (once l \<and> lid l \<in> set (promoted_ids e ev ps)))) (tbl ty)
             else tbl k)"
proof (induction ps arbitrary: res ids tbl)
  case Nil
  then show ?case by (simp add: promoted_ids_def promoted_def option.map_ident)
next
  case (Cons p ps)
  show ?case
  proof (cases "promotes e ev p")
    case False
    with Cons show ?thesis
      by (simp add: each_property_step promoted_ids_def promoted_def)
  next
    case True
    show ?thesis
    proof (cases "tbl ty")
      case None
      with True Cons.prems have
        "foldl (each_property e ty ev) (AList.update (prop_name p) (promote e ev p) res, ids, tbl) ps
           = (res', ids', tbl')"
        by (simp add: each_property_step)
      from Cons.IH[OF this] None show ?thesis by simp
    next
      case (Some ls)
      let ?x = "inst_id (promote e ev p)"
      let ?tbl = "tbl(ty \<mapsto> filter (\<lambda>l. \<not> (lid l = ?x \<and> once l)) ls)"
      from True Some Cons.prems obtain ids1 where
        "foldl (each_property e ty ev) (AList.update (prop_name p) (promote e ev p) res, ids1, ?tbl) ps
           = (res', ids', tbl')"
        by (simp add: each_property_step)
      from Cons.IH[OF this] True Some show ?thesis
        by (auto simp: promoted_ids_def promoted_def intro!: filter_cong)
    qed
  qed
qed

lemma loop_res:
  "foldl (each_property e ty ev) (res, ids, tbl) ps = (res', ids', tbl') \<Longrightarrow>
   distinct (map prop_name ps) \<Longrightarrow> set (map prop_name ps) \<inter> fst ` set res = {} \<Longrightarrow>
   res' = res @ map (\<lambda>p. (prop_name p, promote e ev p)) (promoted e ev ps)"
proof (induction ps arbitrary: res ids tbl)
  case Nil
  then show ?case by (simp add: promoted_def)
next
  case (Cons p ps)
  show ?case
  proof (cases "promotes e ev p")
    case False
    with Cons show ?thesis by (simp add: each_property_step promoted_def)
  next
    case True
    let ?res = "AList.update (prop_name p) (promote e ev p) res"
    from Cons.prems have fresh: "prop_name p \<notin> fst ` set res" by auto
    then have upd: "?res = res @ [(prop_name p, promote e ev p)]" by (rule update_fresh)
    from True Cons.prems(1) obtain ids1 tbl1 where
      "foldl (each_property e ty ev) (?res, ids1, tbl1) ps = (res', ids', tbl')"
      by (simp add: each_property_step)
    from Cons.IH[OF this] Cons.prems(2,3) upd True show ?thesis
      by (auto simp: promoted_def)
  qed
qed


lemma loop_ids_set:
  "foldl (each_property e ty ev) (res, ids, tbl) ps = (res', ids', tbl') \<Longrightarrow>
   set ids' = set ids \<union>
     {x \<in> set (promoted_ids e ev ps). \<exists>ls. tbl ty = Some ls \<and> list_ex (\<lambda>l. lid l = x) ls}"
proof (induction ps arbitrary: res ids tbl)
  case Nil
  then show ?case by (simp add: promoted_ids_def promoted_def)
next
  case (Cons p ps)
  show ?case
  proof (cases "promotes e ev p")
    case False
    with Cons show ?thesis by (simp add: each_property_step promoted_ids_def promoted_def)
  next
    case True
    show ?thesis
    proof (cases "tbl ty")
      case None
      with True Cons.prems have
        "foldl (each_property e ty ev) (AList.update (prop_name p) (promote e ev p) res, ids, tbl) ps
           = (res', ids', tbl')"
        by (simp add: each_property_step)
      from Cons.IH[OF this] None show ?thesis by simp
    next
      case (Some ls)
      let ?x = "inst_id (promote e ev p)"
      let ?tbl = "tbl(ty \<mapsto> filter (\<lambda>l. \<not> (lid l = ?x \<and> once l)) ls)"
      let ?ids = "if list_ex (\<lambda>l. lid l = ?x) ls \<and> ?x \<notin> set ids then ids @ [?x] else ids"
      from True Some Cons.prems have
        "foldl (each_property e ty ev) (AList.update (prop_name p) (promote e ev p) res, ?ids, ?tbl) ps
           = (res', ids', tbl')"
        by (simp add: each_property_step)
      from Cons.IH[OF this] have
        "set ids' = set ?ids \<union>
           {x \<in> set (promoted_ids e ev ps).
              list_ex (\<lambda>l. lid l = x) (filter (\<lambda>l. \<not> (lid l = ?x \<and> once l)) ls)}"
        by simp
      with True Some show ?thesis
        by (auto simp: promoted_ids_def promoted_def list_ex_iff)
    qed
  qed
qed

subsection \<open>The outcomes of processMessage\<close>

lemma processMessage_returned:
  assumes "frame_event e msg = Some event"
      and "find_model (eventModels e) (member event ''type'') = Some (ty, m)"
  shows "\<exists>res ids tbl.
           foldl (each_property e ty event) ([], [], instanceListeners c) (properties m)
             = (res, ids, tbl) \<and>
           processMessage e c msg =
             Returned (c\<lparr>instanceListeners := tbl\<rparr>)
               (emissions ty event (resources_argument res) ids)"
proof -
  from assms(2) have "event \<noteq> JNull"
    by (auto simp: find_model_def find_Some_iff)
  with assms show ?thesis
    by (cases "foldl (each_property e ty event) ([], [], instanceListeners c) (properties m)")
       (auto simp: processMessage_def)
qed

lemma processMessage_cases:
  obtains (unparsed) "frame_event e msg = None" "processMessage e c msg = Thrown SyntaxError c []"
  | (nomodel) event where "frame_event e msg = Some event"
      "find_model (eventModels e) (member event ''type'') = None"
      "processMessage e c msg = Thrown TypeError c []"
  | (returned) event ty m res ids tbl where "frame_event e msg = Some event"
      "find_model (eventModels e) (member event ''type'') = Some (ty, m)"
      "foldl (each_property e ty event) ([], [], instanceListeners c) (properties m) = (res, ids, tbl)"
      "processMessage e c msg =
         Returned (c\<lparr>instanceListeners := tbl\<rparr>) (emissions ty event (resources_argument res) ids)"
proof (cases "frame_event e msg")
  case None
  then show ?thesis using unparsed by (simp add: processMessage_def)
next
  case (Some event)
  show ?thesis
  proof (cases "find_model (eventModels e) (member event ''type'')")
    case None
    with Some show ?thesis using nomodel by (simp add: processMessage_def)
  next
    case (Some tm)
    obtain ty m where tm: "tm = (ty, m)" by (cases tm)
    from processMessage_returned[OF \<open>frame_event e msg = Some event\<close> Some[unfolded tm], of c]
    show ?thesis using returned \<open>frame_event e msg = Some event\<close> Some tm by blast
  qed
qed

lemma scoped_name_inj: "scoped_name ty x = scoped_name ty y \<longleftrightarrow> x = y"
  by (simp add: scoped_name_def)

lemma scoped_name_neq: "scoped_name ty x \<noteq> ty" "ty \<noteq> scoped_name ty x"
  by (simp_all add: scoped_name_def)

lemma scoped_deliveries_emissions:
  "distinct ids \<Longrightarrow>
   scoped_deliveries ty x (emissions ty event arg ids) = (if x \<in> set ids then 1 else 0)"
proof -
  assume d: "distinct ids"
  have "length (filter (\<lambda>i. scoped_name ty i = scoped_name ty x) ids) = (if x \<in> set ids then 1 else 0)"
    using d by (induction ids) (auto simp: scoped_name_inj)
  then show ?thesis
    by (auto simp: scoped_name_neq scoped_deliveries_def emissions_def filter_map comp_def)
qed

lemma emissions_names_distinct:
  "distinct ids \<Longrightarrow> distinct (emitted (emissions ty event arg ids))"
proof -
  assume d: "distinct ids"
  have e: "\<And>xs. emitted (map (\<lambda>i. Emit (scoped_name ty i) event arg) xs) = map (scoped_name ty) xs"
    subgoal for xs by (induction xs) auto
    done
  from d have "distinct (map (scoped_name ty) ids)"
    by (simp add: distinct_map inj_on_def scoped_name_inj)
  then show ?thesis
    by (auto simp: emissions_def e scoped_name_neq)
qed

lemma scoped_deliveries_emitted:
  "scoped_deliveries ty x effs \<le> length (filter (\<lambda>n. n = scoped_name ty x) (emitted effs))"
proof (induction effs)
  case Nil
  then show ?case by (simp add: scoped_deliveries_def)
next
  case (Cons eff effs)
  then show ?case by (cases eff) (auto simp: scoped_deliveries_def)
qed

lemma distinct_filter_le1: "distinct xs \<Longrightarrow> length (filter (\<lambda>n. n = a) xs) \<le> 1"
  by (induction xs) (auto simp: filter_empty_conv)

lemmas demo_defs = demo_env_def demo_client_def demo_listeners_def demo_parse_def demo_models_def
  demo_resources_def demo_knownTypes_def demo_factory_def
  frame_dtmf_def frame_entered_def frame_dial_def frame_replaced_def frame_cut_def frame_unknown_def

lemma demo_event_entered:
  "frame_event demo_env frame_entered =
     Some (JObj [(''type'', JStr ''ChannelEnteredBridge''),
                 (''bridge'', JObj [(''id'', JStr ''b1'')]),
                 (''channel'', JObj [(''id'', JStr ''c1'')])])"
  by (simp add: frame_event_def demo_defs)

lemma demo_model_entered:
  "find_model (eventModels demo_env)
     (member (JObj [(''type'', JStr ''ChannelEnteredBridge''),
                 (''bridge'', JObj [(''id'', JStr ''b1'')]),
                 (''channel'', JObj [(''id'', JStr ''c1'')])]) ''type'') =
   Some (''ChannelEnteredBridge'',
         \<lparr>properties = [\<lparr>prop_name = ''bridge'', dataType = ''Bridge''\<rparr>,
                        \<lparr>prop_name = ''channel'', dataType = ''Channel''\<rparr>]\<rparr>)"
  by (simp add: find_model_def demo_defs)

subsection \<open>The resources argument of the global emission\<close>

text \<open>
  Claim C1. A frame that parses and whose type has a model is dispatched: the handler
  returns, and the first thing it emits is the event under its type, with the event and a
  resources argument. That argument follows the number of properties of the model that
  promote: with none it is undefined, with exactly one it is the instance that property
  yields, with two or more it is the mapping from the names of the promoting properties
  to their instances. The properties of a model have distinct names (they are the members
  of the model's \<^verbatim>\<open>properties\<close> object in the schema).
\<close>

theorem resources_argument_by_promoted_count:
  assumes "frame_event e msg = Some event"
      and "find_model (eventModels e) (member event ''type'') = Some (ty, m)"
      and "distinct (map prop_name (properties m))"
  shows "\<exists>c' arg scoped.
           processMessage e c msg = Returned c' (Emit ty event arg # scoped) \<and>
           (length (promoted e event (properties m)) = 0 \<longrightarrow> arg = Undefined) \<and>
           (\<forall>p. promoted e event (properties m) = [p] \<longrightarrow> arg = Single (promote e event p)) \<and>
           (2 \<le> length (promoted e event (properties m)) \<longrightarrow>
              arg = Mapping (map (\<lambda>p. (prop_name p, promote e event p))
                               (promoted e event (properties m))))"
proof -
  from processMessage_returned[OF assms(1,2), of c] obtain res ids tbl where
    loop: "foldl (each_property e ty event) ([], [], instanceListeners c) (properties m)
             = (res, ids, tbl)"
    and ret: "processMessage e c msg =
                Returned (c\<lparr>instanceListeners := tbl\<rparr>)
                  (emissions ty event (resources_argument res) ids)"
    by blast
  from loop_res[OF loop] assms(3) have
    res: "res = map (\<lambda>p. (prop_name p, promote e event p)) (promoted e event (properties m))"
    by simp
  let ?ps = "promoted e event (properties m)"
  have a0: "length ?ps = 0 \<longrightarrow> resources_argument res = Undefined"
    by (simp add: res resources_argument_def)
  have a1: "\<forall>p. ?ps = [p] \<longrightarrow> resources_argument res = Single (promote e event p)"
    by (simp add: res resources_argument_def)
  have a2: "2 \<le> length ?ps \<longrightarrow>
              resources_argument res = Mapping (map (\<lambda>p. (prop_name p, promote e event p)) ?ps)"
    by (auto simp: res resources_argument_def Let_def)
  from ret a0 a1 a2 show ?thesis
    by (simp add: emissions_def)
qed

theorem resources_argument_by_promoted_count_witness:
  "frame_event demo_env frame_entered =
     Some (JObj [(''type'', JStr ''ChannelEnteredBridge''),
                 (''bridge'', JObj [(''id'', JStr ''b1'')]),
                 (''channel'', JObj [(''id'', JStr ''c1'')])]) \<and>
   find_model (eventModels demo_env)
     (member (JObj [(''type'', JStr ''ChannelEnteredBridge''),
                 (''bridge'', JObj [(''id'', JStr ''b1'')]),
                 (''channel'', JObj [(''id'', JStr ''c1'')])]) ''type'') =
   Some (''ChannelEnteredBridge'',
         \<lparr>properties = [\<lparr>prop_name = ''bridge'', dataType = ''Bridge''\<rparr>,
                        \<lparr>prop_name = ''channel'', dataType = ''Channel''\<rparr>]\<rparr>) \<and>
   distinct (map prop_name [\<lparr>prop_name = ''bridge'', dataType = ''Bridge''\<rparr>,
                            \<lparr>prop_name = ''channel'', dataType = ''Channel''\<rparr>]) \<and>
   (\<exists>c' scoped.
      processMessage demo_env demo_client frame_entered =
        Returned c'
          (Emit ''ChannelEnteredBridge''
             (JObj [(''type'', JStr ''ChannelEnteredBridge''),
                    (''bridge'', JObj [(''id'', JStr ''b1'')]),
                    (''channel'', JObj [(''id'', JStr ''c1'')])])
             (Mapping
                [(''bridge'', \<lparr>inst_type = ''Bridge'', inst_id = ''b1'',
                                inst_values = JObj [(''id'', JStr ''b1'')]\<rparr>),
                 (''channel'', \<lparr>inst_type = ''Channel'', inst_id = ''c1'',
                                 inst_values = JObj [(''id'', JStr ''c1'')]\<rparr>)])
           # scoped))"
proof -
  let ?ev = "JObj [(''type'', JStr ''ChannelEnteredBridge''),
                 (''bridge'', JObj [(''id'', JStr ''b1'')]),
                 (''channel'', JObj [(''id'', JStr ''c1'')])]"
  let ?m = "\<lparr>properties = [\<lparr>prop_name = ''bridge'', dataType = ''Bridge''\<rparr>,
                        \<lparr>prop_name = ''channel'', dataType = ''Channel''\<rparr>]\<rparr>"
  have d: "distinct (map prop_name (properties ?m))" by simp
  have p: "promoted demo_env ?ev [\<lparr>prop_name = ''bridge'', dataType = ''Bridge''\<rparr>,
                        \<lparr>prop_name = ''channel'', dataType = ''Channel''\<rparr>]
             = [\<lparr>prop_name = ''bridge'', dataType = ''Bridge''\<rparr>,
                        \<lparr>prop_name = ''channel'', dataType = ''Channel''\<rparr>]"
    by (simp add: promoted_def promotes_def demo_defs)
  from resources_argument_by_promoted_count[OF demo_event_entered demo_model_entered d, of demo_client]
  obtain c' arg scoped where
    r: "processMessage demo_env demo_client frame_entered =
          Returned c' (Emit ''ChannelEnteredBridge'' ?ev arg # scoped)"
    and a: "2 \<le> length (promoted demo_env ?ev (properties ?m)) \<longrightarrow>
              arg = Mapping (map (\<lambda>p. (prop_name p, promote demo_env ?ev p))
                               (promoted demo_env ?ev (properties ?m)))"
    by blast
  from a have "arg = Mapping
                [(''bridge'', \<lparr>inst_type = ''Bridge'', inst_id = ''b1'',
                                inst_values = JObj [(''id'', JStr ''b1'')]\<rparr>),
                 (''channel'', \<lparr>inst_type = ''Channel'', inst_id = ''c1'',
                                 inst_values = JObj [(''id'', JStr ''c1'')]\<rparr>)]"
    by (simp add: p promote_def) (simp add: demo_env_def demo_resources_def demo_factory_def)
  with r demo_event_entered demo_model_entered d show ?thesis
    by (intro conjI exI) simp_all
qed

subsection \<open>The routing table and the scoped notifications\<close>

lemma carries_iff:
  "carries e msg ty x \<longleftrightarrow>
     (\<exists>event m. frame_event e msg = Some event \<and>
        find_model (eventModels e) (member event ''type'') = Some (ty, m) \<and>
        x \<in> set (promoted_ids e event (properties m)))"
  by (auto simp: carries_def promoted_ids_def promoted_def list_ex_iff
           split: option.splits prod.splits)

lemma listeners_of_loop:
  assumes "foldl (each_property e ty ev) (res, ids, instanceListeners c) ps = (res', ids', tbl')"
  shows "listeners_of (c\<lparr>instanceListeners := tbl'\<rparr>) k =
           (if k = ty
            then filter (\<lambda>l. \<not> (once l \<and> lid l \<in> set (promoted_ids e ev ps))) (listeners_of c k)
            else listeners_of c k)"
  using loop_table[OF assms, of k]
  by (auto simp: listeners_of_def split: option.splits)

lemma listeners_only_filtered:
  "\<exists>P. listeners_of (state_of (processMessage e c msg)) k = filter P (listeners_of c k)"
proof (cases rule: processMessage_cases[of e msg c])
  case unparsed
  then show ?thesis by (auto intro: exI[of _ "\<lambda>l. True"])
next
  case (nomodel event)
  then show ?thesis by (auto intro: exI[of _ "\<lambda>l. True"])
next
  case (returned event ty m res ids tbl)
  from listeners_of_loop[OF returned(3), of k] returned(4) show ?thesis
    by (cases "k = ty") (auto intro: exI[of _ "\<lambda>l. True"])
qed

lemma after_frames_keeps_absent:
  "filter R (listeners_of c k) = [] \<Longrightarrow> filter R (listeners_of (after_frames e c msgs) k) = []"
proof (induction msgs arbitrary: c)
  case Nil
  then show ?case by (simp add: after_frames_def)
next
  case (Cons msg msgs)
  obtain P where "listeners_of (state_of (processMessage e c msg)) k = filter P (listeners_of c k)"
    using listeners_only_filtered by blast
  with Cons.prems have "filter R (listeners_of (state_of (processMessage e c msg)) k) = []"
    by (auto simp: filter_empty_conv)
  from Cons.IH[OF this] show ?case by (simp add: after_frames_def)
qed

lemma carried_frame:
  assumes "carries e msg ty x"
  shows "returns (processMessage e c msg) \<and>
         scoped_deliveries ty x (effects_of (processMessage e c msg)) =
           (if list_ex (\<lambda>l. lid l = x) (listeners_of c ty) then 1 else 0) \<and>
         filter (\<lambda>l. once l \<and> lid l = x) (listeners_of (state_of (processMessage e c msg)) ty) = []"
proof -
  from assms obtain event m where
    ev: "frame_event e msg = Some event"
    and mo: "find_model (eventModels e) (member event ''type'') = Some (ty, m)"
    and x: "x \<in> set (promoted_ids e event (properties m))"
    by (auto simp: carries_iff)
  from processMessage_returned[OF ev mo, of c] obtain res ids tbl where
    loop: "foldl (each_property e ty event) ([], [], instanceListeners c) (properties m)
             = (res, ids, tbl)"
    and ret: "processMessage e c msg =
                Returned (c\<lparr>instanceListeners := tbl\<rparr>)
                  (emissions ty event (resources_argument res) ids)"
    by blast
  have d: "distinct ids" using loop_distinct[OF loop] by simp
  have "x \<in> set ids \<longleftrightarrow> list_ex (\<lambda>l. lid l = x) (listeners_of c ty)"
    using loop_ids_set[OF loop] x
    by (auto simp: listeners_of_def split: option.splits)
  with d ret have count: "scoped_deliveries ty x (effects_of (processMessage e c msg)) =
           (if list_ex (\<lambda>l. lid l = x) (listeners_of c ty) then 1 else 0)"
    by (simp add: scoped_deliveries_emissions)
  from listeners_of_loop[OF loop, of ty] x ret
  have "filter (\<lambda>l. once l \<and> lid l = x) (listeners_of (state_of (processMessage e c msg)) ty) = []"
    by (auto simp: filter_empty_conv)
  with ret count show ?thesis by simp
qed

lemmas dispatch_defs = processMessage_def frame_event_def find_model_def each_property_def
  promotes_def promote_def emissions_def resources_argument_def scoped_name_def Let_def

lemma demo_dial:
  "effects_of (processMessage demo_env demo_client frame_dial) =
     [Emit ''Dial''
        (JObj [(''type'', JStr ''Dial''), (''caller'', JObj [(''id'', JStr ''c1'')]),
               (''peer'', JObj [(''id'', JStr ''c1'')]), (''dialstatus'', JStr [])])
        (Mapping
           [(''caller'', \<lparr>inst_type = ''Channel'', inst_id = ''c1'',
                           inst_values = JObj [(''id'', JStr ''c1'')]\<rparr>),
            (''peer'', \<lparr>inst_type = ''Channel'', inst_id = ''c1'',
                         inst_values = JObj [(''id'', JStr ''c1'')]\<rparr>)]),
      Emit ''Dial-c1''
        (JObj [(''type'', JStr ''Dial''), (''caller'', JObj [(''id'', JStr ''c1'')]),
               (''peer'', JObj [(''id'', JStr ''c1'')]), (''dialstatus'', JStr [])])
        (Mapping
           [(''caller'', \<lparr>inst_type = ''Channel'', inst_id = ''c1'',
                           inst_values = JObj [(''id'', JStr ''c1'')]\<rparr>),
            (''peer'', \<lparr>inst_type = ''Channel'', inst_id = ''c1'',
                         inst_values = JObj [(''id'', JStr ''c1'')]\<rparr>)])]"
  by (simp add: dispatch_defs demo_defs)

lemma demo_dial_ids:
  "promoted_ids demo_env
     (JObj [(''type'', JStr ''Dial''), (''caller'', JObj [(''id'', JStr ''c1'')]),
            (''peer'', JObj [(''id'', JStr ''c1'')]), (''dialstatus'', JStr [])])
     [\<lparr>prop_name = ''caller'', dataType = ''Channel''\<rparr>,
      \<lparr>prop_name = ''peer'', dataType = ''Channel''\<rparr>,
      \<lparr>prop_name = ''dialstatus'', dataType = ''string''\<rparr>] = [''c1'', ''c1'']"
  by (simp add: promoted_ids_def promoted_def promotes_def promote_def demo_defs)

lemma demo_carries_dtmf: "carries demo_env frame_dtmf ''ChannelDtmfReceived'' ''c1''"
  by (simp add: carries_def frame_event_def find_model_def promotes_def promote_def demo_defs)

text \<open>
  Claim C4. Whatever the frame, the client and the schema, the handler emits the scoped
  notification of a pair of event type and identity at most once. This covers a frame in
  which several properties promote to instances of one identity: the identity enters
  \<^verbatim>\<open>instanceIds\<close> once. (A frame on which the handler throws has emitted nothing.)
\<close>

theorem scoped_delivery_at_most_once:
  "scoped_deliveries ty x (effects_of (processMessage e c msg)) \<le> 1"
proof (cases rule: processMessage_cases[of e msg c])
  case unparsed
  then show ?thesis by (simp add: scoped_deliveries_def)
next
  case (nomodel event)
  then show ?thesis by (simp add: scoped_deliveries_def)
next
  case (returned event ty' m res ids tbl)
  have "distinct ids" using loop_distinct[OF returned(3)] by simp
  then have "distinct (emitted (emissions ty' event (resources_argument res) ids))"
    by (rule emissions_names_distinct)
  then have "length (filter (\<lambda>n. n = scoped_name ty x)
                (emitted (emissions ty' event (resources_argument res) ids))) \<le> 1"
    by (rule distinct_filter_le1)
  with scoped_deliveries_emitted[of ty x "emissions ty' event (resources_argument res) ids"]
  show ?thesis using returned(4) by simp
qed

text \<open>In the frame \<open>frame_dial\<close> the properties \<^verbatim>\<open>caller\<close> and \<^verbatim>\<open>peer\<close> both promote to
  channel \<^verbatim>\<open>c1\<close>, which has a listener: the scoped notification is emitted once.\<close>

theorem scoped_delivery_at_most_once_witness:
  "promoted_ids demo_env
     (JObj [(''type'', JStr ''Dial''), (''caller'', JObj [(''id'', JStr ''c1'')]),
            (''peer'', JObj [(''id'', JStr ''c1'')]), (''dialstatus'', JStr [])])
     [\<lparr>prop_name = ''caller'', dataType = ''Channel''\<rparr>,
      \<lparr>prop_name = ''peer'', dataType = ''Channel''\<rparr>,
      \<lparr>prop_name = ''dialstatus'', dataType = ''string''\<rparr>] = [''c1'', ''c1''] \<and>
   scoped_deliveries ''Dial'' ''c1'' (effects_of (processMessage demo_env demo_client frame_dial)) = 1"
proof -
  have "1 \<le> scoped_deliveries ''Dial'' ''c1'' (effects_of (processMessage demo_env demo_client frame_dial))"
    by (simp add: demo_dial scoped_deliveries_def scoped_name_def)
  with scoped_delivery_at_most_once[of "''Dial''" "''c1''" demo_env demo_client frame_dial]
  show ?thesis by (simp add: demo_dial_ids)
qed

subsection \<open>The listeners of an instance\<close>

lemma emit_step:
  assumes "once_only ee n cb"
  shows "fired cb n (map (\<lambda>f. (f, m)) (fst (EventEmitter_emit m ee))) +
           attached (snd (EventEmitter_emit m ee)) n cb = attached ee n cb"
    and "once_only (snd (EventEmitter_emit m ee)) n cb"
    and "m = n \<Longrightarrow> attached (snd (EventEmitter_emit m ee)) n cb = 0"
proof -
  have a: "filter (\<lambda>l. fst l = cb) (filter (\<lambda>l. \<not> snd l) xs) = []"
    if "\<forall>l \<in> set xs. fst l = cb \<longrightarrow> snd l" for xs :: "(nat \<times> bool) list"
    using that by (induction xs) auto
  have b: "length (filter (\<lambda>inv. inv = (cb, n)) (map (\<lambda>f. (f, n)) (map fst xs))) =
           length (filter (\<lambda>l. fst l = cb) xs)" for xs :: "(nat \<times> bool) list"
    by (induction xs) auto
  have c: "filter (\<lambda>inv. inv = (cb, n)) (map (\<lambda>f. (f, m)) fs) = []" if "m \<noteq> n" for fs :: "nat list"
    using that by (induction fs) auto
  from assms have o: "\<forall>l \<in> set (ee n). fst l = cb \<longrightarrow> snd l" by (simp add: once_only_def)
  show "fired cb n (map (\<lambda>f. (f, m)) (fst (EventEmitter_emit m ee))) +
           attached (snd (EventEmitter_emit m ee)) n cb = attached ee n cb"
  proof (cases "m = n")
    case True
    with a[OF o] b[of "ee n"] show ?thesis
      by (simp add: EventEmitter_emit_def fired_def attached_def)
  next
    case False
    with c[OF False] show ?thesis
      by (simp add: EventEmitter_emit_def fired_def attached_def)
  qed
  from o show "once_only (snd (EventEmitter_emit m ee)) n cb"
    by (auto simp: once_only_def EventEmitter_emit_def)
  show "attached (snd (EventEmitter_emit m ee)) n cb = 0" if "m = n"
    using that a[OF o] by (simp add: EventEmitter_emit_def attached_def)
qed

lemma fired_append: "fired cb n (xs @ ys) = fired cb n xs + fired cb n ys"
  by (simp add: fired_def)

lemma emit_all_conserves:
  "once_only ee n cb \<Longrightarrow>
   fired cb n (snd (emit_all ee names)) + attached (fst (emit_all ee names)) n cb
     = attached ee n cb \<and>
   once_only (fst (emit_all ee names)) n cb \<and>
   (n \<in> set names \<longrightarrow> attached (fst (emit_all ee names)) n cb = 0)"
proof (induction names arbitrary: ee)
  case Nil
  then show ?case by (simp add: fired_def)
next
  case (Cons m names)
  obtain cbs ee1 where e: "EventEmitter_emit m ee = (cbs, ee1)"
    by (cases "EventEmitter_emit m ee")
  obtain ee2 invs where r: "emit_all ee1 names = (ee2, invs)"
    by (cases "emit_all ee1 names")
  note st = emit_step[OF Cons.prems, of m, unfolded e fst_conv snd_conv]
  have s1: "fired cb n (map (\<lambda>f. (f, m)) cbs) + attached ee1 n cb = attached ee n cb"
    using st(1) .
  have s2: "once_only ee1 n cb" using st(2) .
  have s3: "m = n \<Longrightarrow> attached ee1 n cb = 0" using st(3) .
  note ih = Cons.IH[OF s2, unfolded r fst_conv snd_conv]
  from ih have i1: "fired cb n invs + attached ee2 n cb = attached ee1 n cb"
    and i2: "once_only ee2 n cb"
    and i3: "n \<in> set names \<longrightarrow> attached ee2 n cb = 0"
    by blast+
  have "n \<in> set (m # names) \<longrightarrow> attached ee2 n cb = 0"
  proof
    assume "n \<in> set (m # names)"
    then consider "n \<in> set names" | "m = n" by auto
    then show "attached ee2 n cb = 0"
    proof cases
      case 1
      with i3 show ?thesis by simp
    next
      case 2
      from s3[OF 2] i1 show ?thesis by simp
    qed
  qed
  with s1 i1 i2 e r show ?case
    by (simp add: fired_append)
qed

lemma dispatch_eq:
  "dispatch e (c, ee) msg =
     ((state_of (processMessage e c msg),
       fst (emit_all ee (emitted (effects_of (processMessage e c msg))))),
      snd (emit_all ee (emitted (effects_of (processMessage e c msg)))))"
  by (simp add: dispatch_def case_prod_beta)

lemma dispatch_all_client:
  "fst (fst (dispatch_all e (c, ee) msgs)) = after_frames e c msgs"
proof (induction msgs arbitrary: c ee)
  case Nil
  then show ?case by (simp add: after_frames_def)
next
  case (Cons msg msgs)
  from Cons.IH[of "state_of (processMessage e c msg)"
                  "fst (emit_all ee (emitted (effects_of (processMessage e c msg))))"]
  show ?case
    by (simp add: dispatch_eq after_frames_def case_prod_beta)
qed

lemma dispatch_conserves:
  assumes "once_only ee n cb"
  shows "fired cb n (snd (dispatch e (c, ee) msg)) + attached (snd (fst (dispatch e (c, ee) msg))) n cb
           = attached ee n cb \<and>
         once_only (snd (fst (dispatch e (c, ee) msg))) n cb \<and>
         (n \<in> set (emitted (effects_of (processMessage e c msg))) \<longrightarrow>
            attached (snd (fst (dispatch e (c, ee) msg))) n cb = 0)"
  using emit_all_conserves[OF assms, of "emitted (effects_of (processMessage e c msg))"]
  by (simp add: dispatch_eq)

lemma dispatch_all_conserves:
  "once_only (snd ce) n cb \<Longrightarrow>
   fired cb n (snd (dispatch_all e ce msgs)) + attached (snd (fst (dispatch_all e ce msgs))) n cb
     = attached (snd ce) n cb"
proof (induction msgs arbitrary: ce)
  case Nil
  then show ?case by (simp add: fired_def)
next
  case (Cons msg msgs)
  obtain c ee where ce: "ce = (c, ee)" by (cases ce)
  obtain ce1 invs1 where d: "dispatch e (c, ee) msg = (ce1, invs1)"
    by (cases "dispatch e (c, ee) msg")
  obtain ce2 invs2 where r: "dispatch_all e ce1 msgs = (ce2, invs2)"
    by (cases "dispatch_all e ce1 msgs")
  from Cons.prems ce have o: "once_only ee n cb" by simp
  note st = dispatch_conserves[OF o, of e c msg, unfolded d fst_conv snd_conv]
  from st have s1: "fired cb n invs1 + attached (snd ce1) n cb = attached ee n cb"
    and s2: "once_only (snd ce1) n cb" by blast+
  from Cons.IH[OF s2, unfolded r fst_conv snd_conv]
  have "fired cb n invs2 + attached (snd ce2) n cb = attached (snd ce1) n cb" .
  with s1 ce d r show ?case by (simp add: fired_append)
qed

lemma scoped_emitted:
  "0 < scoped_deliveries ty x effs \<Longrightarrow> scoped_name ty x \<in> set (emitted effs)"
proof -
  assume "0 < scoped_deliveries ty x effs"
  with scoped_deliveries_emitted[of ty x effs]
  have "filter (\<lambda>n. n = scoped_name ty x) (emitted effs) \<noteq> []"
    by (cases "filter (\<lambda>n. n = scoped_name ty x) (emitted effs)") simp_all
  then show ?thesis by (auto simp: filter_empty_conv)
qed

lemma Resource_once_state:
  assumes "attached ee0 (scoped_name ty x) cb = 0"
  shows "once_only (snd (Resource_once ty x cb (c0, ee0))) (scoped_name ty x) cb"
    and "attached (snd (Resource_once ty x cb (c0, ee0))) (scoped_name ty x) cb = 1"
    and "list_ex (\<lambda>l. lid l = x) (listeners_of (fst (Resource_once ty x cb (c0, ee0))) ty)"
proof -
  from assms have n: "\<forall>l \<in> set (ee0 (scoped_name ty x)). fst l \<noteq> cb"
    by (simp add: attached_def filter_empty_conv)
  then show "once_only (snd (Resource_once ty x cb (c0, ee0))) (scoped_name ty x) cb"
    by (auto simp: Resource_once_def EventEmitter_once_def once_only_def)
  from assms show "attached (snd (Resource_once ty x cb (c0, ee0))) (scoped_name ty x) cb = 1"
    by (simp add: Resource_once_def EventEmitter_once_def attached_def)
  show "list_ex (\<lambda>l. lid l = x) (listeners_of (fst (Resource_once ty x cb (c0, ee0))) ty)"
    by (simp add: Resource_once_def listeners_of_def)
qed

lemma carried_dispatch:
  assumes "carries e msg ty x" and "once_only ee (scoped_name ty x) cb"
  shows "filter (\<lambda>l. once l \<and> lid l = x) (listeners_of (fst (fst (dispatch e (c, ee) msg))) ty) = []"
    and "once_only (snd (fst (dispatch e (c, ee) msg))) (scoped_name ty x) cb"
    and "list_ex (\<lambda>l. lid l = x) (listeners_of c ty) \<Longrightarrow>
           attached (snd (fst (dispatch e (c, ee) msg))) (scoped_name ty x) cb = 0 \<and>
           fired cb (scoped_name ty x) (snd (dispatch e (c, ee) msg)) = attached ee (scoped_name ty x) cb"
proof -
  note cf = carried_frame[OF assms(1), of c]
  note dc = dispatch_conserves[OF assms(2), of e c msg]
  from cf show "filter (\<lambda>l. once l \<and> lid l = x) (listeners_of (fst (fst (dispatch e (c, ee) msg))) ty) = []"
    by (simp add: dispatch_eq)
  from dc show "once_only (snd (fst (dispatch e (c, ee) msg))) (scoped_name ty x) cb" by blast
  show "attached (snd (fst (dispatch e (c, ee) msg))) (scoped_name ty x) cb = 0 \<and>
        fired cb (scoped_name ty x) (snd (dispatch e (c, ee) msg)) = attached ee (scoped_name ty x) cb"
    if "list_ex (\<lambda>l. lid l = x) (listeners_of c ty)"
  proof -
    from cf that have "0 < scoped_deliveries ty x (effects_of (processMessage e c msg))" by simp
    then have "scoped_name ty x \<in> set (emitted (effects_of (processMessage e c msg)))"
      by (rule scoped_emitted)
    with dc show ?thesis by simp
  qed
qed

lemma uncarried_frame:
  assumes "\<not> carries e msg ty x"
  shows "filter (\<lambda>l. lid l = x) (listeners_of (state_of (processMessage e c msg)) ty) =
         filter (\<lambda>l. lid l = x) (listeners_of c ty)"
proof (cases rule: processMessage_cases[of e msg c])
  case unparsed
  then show ?thesis by simp
next
  case (nomodel event)
  then show ?thesis by simp
next
  case (returned event ty' m res ids tbl)
  from assms returned(1,2) have "ty' \<noteq> ty \<or> x \<notin> set (promoted_ids e event (properties m))"
    by (auto simp: carries_iff)
  with listeners_of_loop[OF returned(3), of ty] returned(4) show ?thesis
    by (auto intro: filter_cong)
qed

lemma dispatch_keeps_link:
  assumes "once_only ee (scoped_name ty x) cb"
      and "attached ee (scoped_name ty x) cb = 0 \<or> list_ex (\<lambda>l. lid l = x) (listeners_of c ty)"
  shows "attached (snd (fst (dispatch e (c, ee) msg))) (scoped_name ty x) cb = 0 \<or>
         list_ex (\<lambda>l. lid l = x) (listeners_of (fst (fst (dispatch e (c, ee) msg))) ty)"
    and "carries e msg ty x \<Longrightarrow>
         attached (snd (fst (dispatch e (c, ee) msg))) (scoped_name ty x) cb = 0"
proof -
  note dc = dispatch_conserves[OF assms(1), of e c msg]
  have gone: "attached (snd (fst (dispatch e (c, ee) msg))) (scoped_name ty x) cb = 0"
    if "carries e msg ty x"
  proof (cases "list_ex (\<lambda>l. lid l = x) (listeners_of c ty)")
    case True
    from carried_dispatch(3)[OF that assms(1) True] show ?thesis by simp
  next
    case False
    with assms(2) have "attached ee (scoped_name ty x) cb = 0" by simp
    with dc show ?thesis by simp
  qed
  then show "carries e msg ty x \<Longrightarrow>
         attached (snd (fst (dispatch e (c, ee) msg))) (scoped_name ty x) cb = 0" .
  show "attached (snd (fst (dispatch e (c, ee) msg))) (scoped_name ty x) cb = 0 \<or>
         list_ex (\<lambda>l. lid l = x) (listeners_of (fst (fst (dispatch e (c, ee) msg))) ty)"
  proof (cases "carries e msg ty x")
    case True
    with gone show ?thesis by simp
  next
    case False
    show ?thesis
    proof (cases "attached ee (scoped_name ty x) cb = 0")
      case True
      with dc show ?thesis by simp
    next
      case nz: False
      with assms(2) have "list_ex (\<lambda>l. lid l = x) (listeners_of c ty)" by simp
      then have "filter (\<lambda>l. lid l = x) (listeners_of c ty) \<noteq> []"
        by (auto simp: list_ex_iff filter_empty_conv)
      with uncarried_frame[OF False, of c]
      have "filter (\<lambda>l. lid l = x) (listeners_of (state_of (processMessage e c msg)) ty) \<noteq> []"
        by simp
      then show ?thesis
        by (auto simp: dispatch_eq list_ex_iff filter_empty_conv)
    qed
  qed
qed

lemma dispatch_all_keeps_link:
  "once_only (snd ce) (scoped_name ty x) cb \<Longrightarrow>
   attached (snd ce) (scoped_name ty x) cb = 0 \<or> list_ex (\<lambda>l. lid l = x) (listeners_of (fst ce) ty) \<Longrightarrow>
   once_only (snd (fst (dispatch_all e ce msgs))) (scoped_name ty x) cb \<and>
   (attached (snd (fst (dispatch_all e ce msgs))) (scoped_name ty x) cb = 0 \<or>
    list_ex (\<lambda>l. lid l = x) (listeners_of (fst (fst (dispatch_all e ce msgs))) ty))"
proof (induction msgs arbitrary: ce)
  case Nil
  then show ?case by simp
next
  case (Cons m ms)
  obtain c ee where ce: "ce = (c, ee)" by (cases ce)
  from Cons.prems ce have o: "once_only ee (scoped_name ty x) cb"
    and l: "attached ee (scoped_name ty x) cb = 0 \<or> list_ex (\<lambda>l. lid l = x) (listeners_of c ty)"
    by simp_all
  from dispatch_conserves[OF o, of e c m]
  have o': "once_only (snd (fst (dispatch e (c, ee) m))) (scoped_name ty x) cb" by blast
  note l' = dispatch_keeps_link(1)[OF o l, of e m]
  from Cons.IH[OF o' l'] ce show ?case by (simp add: case_prod_beta)
qed

lemmas listener_defs = dispatch_def Resource_once_def Resource_on_def EventEmitter_on_def
  EventEmitter_once_def EventEmitter_emit_def demo_listening_def demo_plain_def listeners_of_def

lemma demo_first_calls:
  "snd (dispatch demo_env (Resource_once ''ChannelDtmfReceived'' ''c1'' 6 demo_listening) frame_dtmf) =
     [(9, ''ChannelDtmfReceived''), (5, ''ChannelDtmfReceived-c1''), (6, ''ChannelDtmfReceived-c1'')]"
  by (simp add: listener_defs dispatch_defs demo_defs)

lemma demo_later_calls:
  "snd (dispatch_all demo_env
          (fst (dispatch demo_env (Resource_once ''ChannelDtmfReceived'' ''c1'' 6 demo_listening) frame_dtmf))
          [frame_dial, frame_dtmf]) =
     [(9, ''ChannelDtmfReceived''), (5, ''ChannelDtmfReceived-c1'')]"
  by (simp add: listener_defs dispatch_defs demo_defs)

lemma demo_later_table:
  "listeners_of (fst (fst (dispatch_all demo_env
          (fst (dispatch demo_env (Resource_once ''ChannelDtmfReceived'' ''c1'' 6 demo_listening) frame_dtmf))
          [frame_dial, frame_dtmf]))) ''ChannelDtmfReceived'' =
     [\<lparr>once = False, lid = ''c1'', callback = 5\<rparr>]"
  by (simp add: listener_defs dispatch_defs demo_defs)

text \<open>
  Claim C5. A listener is registered with \<^verbatim>\<open>once\<close> for the event type \<open>ty\<close> on the
  instance of identity \<open>x\<close>, on a client on which it was not attached under the name of
  that scoped notification before. Then, whatever frames the client receives, the listener
  is called under that name at most once. A frame of the type carrying \<open>x\<close> that arrives
  right after the registration calls it exactly once. And once a frame of the type
  carrying \<open>x\<close> has been dispatched, after whatever frames came before it, the routing
  table holds no \<^verbatim>\<open>once\<close> entry for \<open>x\<close> under \<open>ty\<close>, and no frame that follows calls the
  listener again, whether or not the instance has other listeners. (The registration is
  modelled from the spec, the calls of listeners are those of Node's emitter, and
  listeners are taken to return normally.)
\<close>

theorem once_listener_fires_at_most_once:
  assumes "attached ee0 (scoped_name ty x) cb = 0"
      and "carries e msg ty x"
  shows "fired cb (scoped_name ty x)
           (snd (dispatch_all e (Resource_once ty x cb (c0, ee0)) msgs)) \<le> 1 \<and>
         fired cb (scoped_name ty x)
           (snd (dispatch e (Resource_once ty x cb (c0, ee0)) msg)) = 1 \<and>
         filter (\<lambda>l. once l \<and> lid l = x)
           (listeners_of
              (fst (fst (dispatch_all e
                 (fst (dispatch e (fst (dispatch_all e (Resource_once ty x cb (c0, ee0)) before)) msg))
                 later))) ty) = [] \<and>
         fired cb (scoped_name ty x)
           (snd (dispatch_all e
              (fst (dispatch e (fst (dispatch_all e (Resource_once ty x cb (c0, ee0)) before)) msg))
              later)) = 0"
proof -
  let ?n = "scoped_name ty x"
  obtain c1 ee1 where st1: "Resource_once ty x cb (c0, ee0) = (c1, ee1)"
    by (cases "Resource_once ty x cb (c0, ee0)")
  note reg = Resource_once_state[OF assms(1), of c0, unfolded st1 fst_conv snd_conv]
  have o1: "once_only ee1 ?n cb" and a1: "attached ee1 ?n cb = 1"
    and l1: "list_ex (\<lambda>l. lid l = x) (listeners_of c1 ty)"
    using reg by blast+
  \<comment> \<open>any frames\<close>
  from dispatch_all_conserves[of "(c1, ee1)" ?n cb e msgs] o1 a1
  have p1: "fired cb ?n (snd (dispatch_all e (c1, ee1) msgs)) \<le> 1" by simp
  \<comment> \<open>a frame carrying the identity, right after the registration\<close>
  from carried_dispatch(3)[OF assms(2) o1 l1] a1
  have p2: "fired cb ?n (snd (dispatch e (c1, ee1) msg)) = 1" by simp
  \<comment> \<open>a frame carrying the identity, after any frames\<close>
  obtain cb' eeb where stb: "fst (dispatch_all e (c1, ee1) before) = (cb', eeb)"
    by (cases "fst (dispatch_all e (c1, ee1) before)")
  from dispatch_all_keeps_link[of "(c1, ee1)" ty x cb e before] o1 l1 stb
  have ob: "once_only eeb ?n cb"
    and lb: "attached eeb ?n cb = 0 \<or> list_ex (\<lambda>l. lid l = x) (listeners_of cb' ty)"
    by simp_all
  obtain c2 ee2 where st2: "fst (dispatch e (cb', eeb) msg) = (c2, ee2)"
    by (cases "fst (dispatch e (cb', eeb) msg)")
  note cd = carried_dispatch(1,2)[OF assms(2) ob, where c = cb', unfolded st2 fst_conv snd_conv]
  have t2: "filter (\<lambda>l. once l \<and> lid l = x) (listeners_of c2 ty) = []"
    and o2: "once_only ee2 ?n cb" using cd by blast+
  from after_frames_keeps_absent[OF t2, of e later]
  have p3: "filter (\<lambda>l. once l \<and> lid l = x)
              (listeners_of (fst (fst (dispatch_all e (c2, ee2) later))) ty) = []"
    by (simp add: dispatch_all_client)
  from dispatch_keeps_link(2)[OF ob lb assms(2), unfolded st2 snd_conv]
  have "attached ee2 ?n cb = 0" .
  with dispatch_all_conserves[of "(c2, ee2)" ?n cb e later] o2
  have p4: "fired cb ?n (snd (dispatch_all e (c2, ee2) later)) = 0" by simp
  from p1 p2 p3 p4 show ?thesis
    by (simp add: st1 stb st2)
qed

text \<open>Channel \<^verbatim>\<open>c1\<close> has a lasting listener, 5, and the listener 6 is registered on it with
  \<^verbatim>\<open>once\<close>. The first frame for the channel calls both; after a later frame for the same
  channel, which emits the scoped notification again, only the lasting one has been
  called.\<close>

theorem once_listener_fires_at_most_once_witness:
  "attached (snd demo_listening) (scoped_name ''ChannelDtmfReceived'' ''c1'') 6 = 0 \<and>
   carries demo_env frame_dtmf ''ChannelDtmfReceived'' ''c1'' \<and>
   snd (dispatch demo_env (Resource_once ''ChannelDtmfReceived'' ''c1'' 6 demo_listening) frame_dtmf) =
     [(9, ''ChannelDtmfReceived''), (5, ''ChannelDtmfReceived-c1''), (6, ''ChannelDtmfReceived-c1'')] \<and>
   fired 6 (scoped_name ''ChannelDtmfReceived'' ''c1'')
     (snd (dispatch demo_env (Resource_once ''ChannelDtmfReceived'' ''c1'' 6 demo_listening) frame_dtmf)) = 1 \<and>
   listeners_of (fst (fst (dispatch_all demo_env
          (fst (dispatch demo_env (Resource_once ''ChannelDtmfReceived'' ''c1'' 6 demo_listening) frame_dtmf))
          [frame_dial, frame_dtmf]))) ''ChannelDtmfReceived'' =
     [\<lparr>once = False, lid = ''c1'', callback = 5\<rparr>] \<and>
   snd (dispatch_all demo_env
          (fst (dispatch demo_env (Resource_once ''ChannelDtmfReceived'' ''c1'' 6 demo_listening) frame_dtmf))
          [frame_dial, frame_dtmf]) =
     [(9, ''ChannelDtmfReceived''), (5, ''ChannelDtmfReceived-c1'')] \<and>
   fired 6 (scoped_name ''ChannelDtmfReceived'' ''c1'')
     (snd (dispatch_all demo_env
          (fst (dispatch demo_env (Resource_once ''ChannelDtmfReceived'' ''c1'' 6 demo_listening) frame_dtmf))
          [frame_dial, frame_dtmf])) = 0"
proof -
  have a: "attached (snd demo_listening) (scoped_name ''ChannelDtmfReceived'' ''c1'') 6 = 0"
    by (simp add: attached_def demo_listening_def demo_plain_def Resource_on_def
          EventEmitter_on_def scoped_name_def)
  note t = once_listener_fires_at_most_once[OF a demo_carries_dtmf,
         of "fst demo_listening" "[]" "[]" "[frame_dial, frame_dtmf]",
         unfolded prod.collapse dispatch_all.simps(1) fst_conv]
  from t have p2: "fired 6 (scoped_name ''ChannelDtmfReceived'' ''c1'')
     (snd (dispatch demo_env (Resource_once ''ChannelDtmfReceived'' ''c1'' 6 demo_listening) frame_dtmf)) = 1"
    by blast
  from t have p4: "fired 6 (scoped_name ''ChannelDtmfReceived'' ''c1'')
     (snd (dispatch_all demo_env
          (fst (dispatch demo_env (Resource_once ''ChannelDtmfReceived'' ''c1'' 6 demo_listening) frame_dtmf))
          [frame_dial, frame_dtmf])) = 0"
    by blast
  from a demo_carries_dtmf demo_first_calls p2 demo_later_table demo_later_calls p4
  show ?thesis by blast
qed

subsection \<open>Frames that do not parse or have no model\<close>

text \<open>
  Claim C8, as the code has it. The claim reads: a malformed or unrecognised frame is
  logged and skipped. The handler has no \<^verbatim>\<open>try\<close> and logs nothing: on a frame that does
  not parse, \<^verbatim>\<open>JSON.parse\<close> throws a \<^verbatim>\<open>SyntaxError\<close> out of the handler, and on a frame
  whose type has no event model, reading \<^verbatim>\<open>eventModel.properties\<close> throws a
  \<^verbatim>\<open>TypeError\<close> out of it. In both cases nothing has been emitted and the client is as
  it was before the frame.
\<close>

theorem malformed_frame_throws:
  "(frame_event e msg = None \<longrightarrow> processMessage e c msg = Thrown SyntaxError c []) \<and>
   (\<forall>event. frame_event e msg = Some event \<and>
             find_model (eventModels e) (member event ''type'') = None \<longrightarrow>
             processMessage e c msg = Thrown TypeError c [])"
  by (simp add: processMessage_def)

theorem malformed_frame_throws_witness:
  "frame_event demo_env frame_cut = None \<and>
   processMessage demo_env demo_client frame_cut = Thrown SyntaxError demo_client [] \<and>
   frame_event demo_env frame_unknown = Some (JObj [(''type'', JStr ''Bogus'')]) \<and>
   find_model (eventModels demo_env) (member (JObj [(''type'', JStr ''Bogus'')]) ''type'') = None \<and>
   processMessage demo_env demo_client frame_unknown = Thrown TypeError demo_client []"
proof -
  have a: "frame_event demo_env frame_cut = None"
    by (simp add: frame_event_def demo_defs)
  have b: "frame_event demo_env frame_unknown = Some (JObj [(''type'', JStr ''Bogus'')])"
    by (simp add: frame_event_def demo_defs)
  have c: "find_model (eventModels demo_env) (member (JObj [(''type'', JStr ''Bogus'')]) ''type'') = None"
    by (simp add: find_model_def demo_defs)
  from malformed_frame_throws[of demo_env frame_cut demo_client]
       malformed_frame_throws[of demo_env frame_unknown demo_client] a b c
  show ?thesis by simp
qed

text \<open>The claim as stated fails on the cut frame and on the frame of unknown type: the
  handler does not return.\<close>

theorem malformed_frame_not_skipped:
  "\<not> returns (processMessage demo_env demo_client frame_cut) \<and>
   effects_of (processMessage demo_env demo_client frame_cut) = [] \<and>
   \<not> returns (processMessage demo_env demo_client frame_unknown) \<and>
   effects_of (processMessage demo_env demo_client frame_unknown) = []"
  by (simp add: dispatch_defs demo_defs)

section \<open>The socket lifecycle\<close>

subsection \<open>What the handlers keep\<close>

lemma reconnect_eq:
  "reconnect err (c, s) =
     Returned (c, s\<lparr>retry := (retry s)\<lparr>calls := Suc (calls (retry s))\<rparr>\<rparr>)
       (if accepts (retry s) (calls (retry s)) then [ConnectScheduled] else [EmitMaxRetries err])"
  by (simp add: reconnect_def retry_call_def)







lemma handle_keeps_flag:
  assumes "processingError s" and "i \<noteq> SocketOpen"
  shows "processingError (snd (state_of (handle e i (c, s))))"
proof (cases i)
  case (SocketMessage msg)
  then show ?thesis using assms by (cases "processMessage e c msg") auto
next
  case CallStop
  then show ?thesis using assms by (cases "stop c") auto
qed (use assms in \<open>auto simp: processClose_def processError_def connect_def reconnect_eq\<close>)

lemma handle_keeps_delay:
  "delay (retry (snd (state_of (handle e i (c, s))))) = delay (retry s)"
proof (cases i)
  case (SocketMessage msg)
  then show ?thesis by (cases "processMessage e c msg") auto
next
  case CallStop
  then show ?thesis by (cases "stop c") auto
qed (auto simp: processOpen_def processClose_def processError_def connect_def reconnect_eq)

lemmas lifecycle_defs = processOpen_def processClose_def processError_def connect_def stop_def
  reconnect_eq

subsection \<open>Open, close and error\<close>

text \<open>
  Claim C2, as the code has it. The claim reads: on open the client emits
  \<^verbatim>\<open>WebSocketConnected\<close> and clears the error flag; on a close or an error without a
  \<^verbatim>\<open>stop\<close> it emits \<^verbatim>\<open>WebSocketReconnecting\<close> and schedules a reconnect through the
  backoff function with a starting delay of 100 ms. What holds of the handlers: when the
  socket opens the error flag is cleared; the backoff function is created with the delay
  100 and no handler changes that; an error that finds the client not stopped on purpose,
  and a close that finds it not stopped on purpose and no error in flight, call the
  backoff function once, and a reconnect is scheduled when that function accepts; a close
  that finds the client not stopped on purpose and an error in flight does nothing, it
  schedules no reconnect of its own. (Whether the lifecycle events are emitted is not part
  of this statement.)
\<close>

theorem open_clears_flag_and_disconnect_retries:
  "\<not> processingError (snd (state_of (processOpen (c, s)))) \<and>
   delay (retry (snd (state_of (start policy c a)))) = 100 \<and>
   delay (retry (snd (state_of (handle e i (c, s))))) = delay (retry s) \<and>
   (\<not> wsClosed c \<longrightarrow>
      calls (retry (snd (state_of (processError err (c, s))))) = Suc (calls (retry s)) \<and>
      reconnects (effects_of (processError err (c, s))) =
        (if accepts (retry s) (calls (retry s)) then 1 else 0)) \<and>
   (\<not> wsClosed c \<and> \<not> processingError s \<longrightarrow>
      calls (retry (snd (state_of (processClose (c, s))))) = Suc (calls (retry s)) \<and>
      reconnects (effects_of (processClose (c, s))) =
        (if accepts (retry s) (calls (retry s)) then 1 else 0)) \<and>
   (\<not> wsClosed c \<and> processingError s \<longrightarrow> processClose (c, s) = Returned (c, s) [])"
proof -
  have "delay (retry (snd (state_of (start policy c a)))) = 100"
    by (simp add: start_def connect_def backoff_create_def)
  moreover have "delay (retry (snd (state_of (handle e i (c, s))))) = delay (retry s)"
    by (rule handle_keeps_delay)
  ultimately show ?thesis
    by (simp add: lifecycle_defs reconnects_def)
qed

text \<open>A started client that was not stopped: an error, then the close that follows it,
  and a close with no error in flight.\<close>

theorem open_clears_flag_and_disconnect_retries_witness:
  "\<not> wsClosed demo_client \<and> \<not> processingError demo_scope \<and>
   delay (retry (snd (state_of (start demo_policy demo_client (App ''demo''))))) = 100 \<and>
   calls (retry (snd (state_of (processError ''ECONNRESET'' (demo_client, demo_scope))))) = 1 \<and>
   reconnects (effects_of (processError ''ECONNRESET'' (demo_client, demo_scope))) = 1 \<and>
   calls (retry (snd (state_of (processClose (demo_client, demo_scope))))) = 1 \<and>
   reconnects (effects_of (processClose (demo_client, demo_scope))) = 1 \<and>
   processingError (snd (state_of (processError ''ECONNRESET'' (demo_client, demo_scope)))) \<and>
   processClose (state_of (processError ''ECONNRESET'' (demo_client, demo_scope))) =
     Returned (state_of (processError ''ECONNRESET'' (demo_client, demo_scope))) []"
proof -
  have h: "\<not> wsClosed demo_client" "\<not> processingError demo_scope"
    "calls (retry demo_scope) = 0" "accepts (retry demo_scope) 0"
    by (simp_all add: demo_client_def demo_scope_def demo_policy_def)
  have st: "state_of (processError ''ECONNRESET'' (demo_client, demo_scope)) =
              (demo_client, snd (state_of (processError ''ECONNRESET'' (demo_client, demo_scope))))"
    "processingError (snd (state_of (processError ''ECONNRESET'' (demo_client, demo_scope))))"
    using h(1) by (simp_all add: processError_def reconnect_eq)
  from open_clears_flag_and_disconnect_retries
         [of demo_client "snd (state_of (processError ''ECONNRESET'' (demo_client, demo_scope)))"
             demo_policy "App ''demo''" demo_env SocketOpen "''ECONNRESET''"]
       h(1) st
  have cl: "processClose (state_of (processError ''ECONNRESET'' (demo_client, demo_scope))) =
     Returned (state_of (processError ''ECONNRESET'' (demo_client, demo_scope))) []"
    by simp
  from open_clears_flag_and_disconnect_retries
         [of demo_client demo_scope demo_policy "App ''demo''" demo_env SocketOpen "''ECONNRESET''"]
  show ?thesis using h st(2) cl by simp
qed

text \<open>The claim as stated fails on a started client that was not stopped: the open
  handler performs no effect at all, the close handler schedules a reconnect and emits
  nothing, and the close that follows an error does not schedule.\<close>

theorem lifecycle_events_not_emitted:
  "\<not> wsClosed demo_client \<and>
   effects_of (processOpen (demo_client, demo_scope)) = [] \<and>
   effects_of (processClose (demo_client, demo_scope)) = [ConnectScheduled] \<and>
   effects_of (processError ''ECONNRESET'' (demo_client, demo_scope)) = [ConnectScheduled] \<and>
   effects_of (processClose
     (state_of (processError ''ECONNRESET'' (demo_client, demo_scope)))) = []"
  by (simp add: lifecycle_defs demo_client_def demo_scope_def demo_policy_def)

subsection \<open>Stop\<close>




subsection \<open>An error followed by a close\<close>

text \<open>
  Claim C10. When an error event is followed by a close event, at most one reconnect is
  scheduled by the two handlers together, and the backoff function is called at most
  once. On a client that was not stopped on purpose the error handler sets the
  processing-error flag and calls the backoff function, and the close handler that follows
  does nothing. The flag, once set, stays set through every socket event, timer and
  \<^verbatim>\<open>stop\<close> other than an open, and an open clears it.
\<close>

theorem error_then_close_reconnects_once:
  "reconnects (snd (run e [SocketError err, SocketClose] (c, s))) \<le> 1 \<and>
   calls (retry (snd (fst (run e [SocketError err, SocketClose] (c, s))))) \<le> Suc (calls (retry s)) \<and>
   (\<not> wsClosed c \<longrightarrow>
      processingError (snd (state_of (processError err (c, s)))) \<and>
      effects_of (processClose (state_of (processError err (c, s)))) = [] \<and>
      calls (retry (snd (fst (run e [SocketError err, SocketClose] (c, s))))) = Suc (calls (retry s))) \<and>
   (processingError s \<and> i \<noteq> SocketOpen \<longrightarrow>
      processingError (snd (state_of (handle e i (c, s))))) \<and>
   \<not> processingError (snd (state_of (handle e SocketOpen (c, s))))"
proof -
  have "processingError s \<and> i \<noteq> SocketOpen \<longrightarrow>
          processingError (snd (state_of (handle e i (c, s))))"
    using handle_keeps_flag by blast
  then show ?thesis
    by (simp add: lifecycle_defs reconnects_def)
qed

theorem error_then_close_reconnects_once_witness:
  "\<not> wsClosed demo_client \<and>
   run demo_env [SocketError ''ECONNRESET'', SocketClose] (demo_client, demo_scope) =
     ((demo_client,
       demo_scope\<lparr>processingError := True,
                  retry := \<lparr>delay = 100, accepts = demo_policy, calls = 1\<rparr>\<rparr>),
      [ConnectScheduled]) \<and>
   reconnects (snd (run demo_env [SocketError ''ECONNRESET'', SocketClose]
                     (demo_client, demo_scope))) = 1 \<and>
   processingError (snd (state_of (handle demo_env SocketClose
      (demo_client, demo_scope\<lparr>processingError := True\<rparr>)))) \<and>
   \<not> processingError (snd (state_of (handle demo_env SocketOpen
      (demo_client, demo_scope\<lparr>processingError := True\<rparr>))))"
proof -
  have h: "\<not> wsClosed demo_client" by (simp add: demo_client_def)
  have r: "run demo_env [SocketError ''ECONNRESET'', SocketClose] (demo_client, demo_scope) =
     ((demo_client,
       demo_scope\<lparr>processingError := True,
                  retry := \<lparr>delay = 100, accepts = demo_policy, calls = 1\<rparr>\<rparr>),
      [ConnectScheduled])"
    by (simp add: lifecycle_defs demo_client_def demo_scope_def demo_policy_def)
  from error_then_close_reconnects_once
         [of demo_env "''ECONNRESET''" demo_client demo_scope SocketClose]
       error_then_close_reconnects_once
         [of demo_env "''ECONNRESET''" demo_client "demo_scope\<lparr>processingError := True\<rparr>" SocketClose]
  show ?thesis using h r by (simp add: reconnects_def)
qed

section \<open>Operation calls\<close>

subsection \<open>The store across a call\<close>

lemma clone_old:
  "b < length h \<Longrightarrow> length h \<le> length (snd (clone v h)) \<and> snd (clone v h) ! b = h ! b"
  by (cases v) (auto simp: clone_def nth_append)

lemma clone_result:
  "fst (clone v h) = VObject b \<Longrightarrow> b < length h \<Longrightarrow> length (snd (clone v h)) = length h \<and> v = VObject b"
  by (cases v) (auto simp: clone_def split: if_splits)

lemma prepare_frame:
  assumes w: "writes_argument_only (parseBodyParams sw (params oper))"
      and r: "returns_argument_or_new (parseBodyParams sw (params oper))"
      and b: "b < length h"
  shows "length h \<le> length (snd (prepare sw oper args h)) \<and>
         snd (prepare sw oper args h) ! b = h ! b \<and>
         fst (prepare sw oper args h) \<noteq> VObject b"
proof (cases "first args = VUndefined \<or> first args = VNull \<or> isFunction (first args) \<or> isArray (first args)")
  case True
  with b show ?thesis by (auto simp: prepare_def nth_append)
next
  case False
  obtain copy h' where c: "clone (first args) h = (copy, h')" by (cases "clone (first args) h")
  let ?f = "parseBodyParams sw (params oper)"
  from c False have p: "prepare sw oper args h = ?f copy h'" by (simp add: prepare_def)
  from clone_old[OF b, of "first args"] c have h': "length h \<le> length h'" "h' ! b = h ! b" by auto
  with b have b': "b < length h'" by simp
  have copy_new: "copy \<noteq> VObject b"
  proof
    assume e: "copy = VObject b"
    with clone_result[of "first args" h b] c b have "first args = VObject b" by simp
    with b c e show False by (simp add: clone_def)
  qed
  from w b' copy_new have k: "length h' \<le> length (snd (?f copy h'))" "snd (?f copy h') ! b = h' ! b"
    by (auto simp: writes_argument_only_def)
  have "fst (?f copy h') \<noteq> VObject b"
  proof
    assume "fst (?f copy h') = VObject b"
    with r b' have "copy = VObject b" by (auto simp: returns_argument_or_new_def)
    with copy_new show False by simp
  qed
  with k h' p show ?thesis by simp
qed

lemma callSwagger_eq:
  "callSwagger e sw oper args h =
     (complete e oper (last_arg args) (reply_of sw oper args h),
      snd (operation_call sw (fst (prepare sw oper args h)) (snd (prepare sw oper args h))))"
  by (simp add: callSwagger_def reply_of_def Let_def case_prod_beta)

lemma demo_parseBodyParams_frame:
  "writes_argument_only (demo_parseBodyParams ps)"
  unfolding writes_argument_only_def
proof (intro allI impI)
  fix v :: jsval and h :: heap and b :: nat
  assume "b < length h \<and> v \<noteq> VObject b"
  then show "length h \<le> length (snd (demo_parseBodyParams ps v h)) \<and>
             snd (demo_parseBodyParams ps v h) ! b = h ! b"
    by (cases v) (auto simp: demo_parseBodyParams_def Let_def nth_append)
qed

lemma demo_parseBodyParams_returns:
  "returns_argument_or_new (demo_parseBodyParams ps)"
  unfolding returns_argument_or_new_def
proof (intro allI impI)
  fix v :: jsval and h :: heap and b :: nat
  assume "fst (demo_parseBodyParams ps v h) = VObject b \<and> b < length h"
  then show "v = VObject b"
    by (cases v) (auto simp: demo_parseBodyParams_def Let_def split: if_splits)
qed

lemma demo_call_frame:
  "writes_argument_only (demo_call reply)"
  unfolding writes_argument_only_def
proof (intro allI impI)
  fix v :: jsval and h :: heap and b :: nat
  assume "b < length h \<and> v \<noteq> VObject b"
  then show "length h \<le> length (snd (demo_call reply v h)) \<and>
             snd (demo_call reply v h) ! b = h ! b"
    by (cases v) (auto simp: demo_call_def)
qed

lemmas call_defs = callSwagger_def prepare_def clone_def complete_def processResponse_def
  swaggerError_def reply_of_def Let_def
  demo_swagger_def demo_parseBodyParams_def demo_call_def demo_originate_def demo_heap_def
  not_found_def created_def

lemma demo_call_heap:
  "snd (callSwagger demo_env (demo_swagger created) demo_originate [VObject 0, VFunction 7] demo_heap) =
     [[(''endpoint'', VString ''PJSIP/softphone''), (''app'', VString ''u''),
       (''variables'', VObject 1)],
      [(''CALLERID(name)'', VString ''Alice'')],
      [(''endpoint'', VString ''PJSIP/softphone''), (''app'', VString ''u''),
       (''body'', VObject 3), (''headers'', VNull)],
      [(''variables'', VObject 1)]]"
  by (simp add: call_defs)

text \<open>
  Claim C6. The options a caller passes to an operation are an object of the caller's
  store. \<^verbatim>\<open>callSwagger\<close> copies them first: the copy is a new object with the same
  members, and it is the copy that \<^verbatim>\<open>parseBodyParams\<close> and the Swagger operation are
  handed. After the call the caller's object has the members it had before, each with the
  value it had. The code the copy is handed to is not part of this module; it is taken to
  write to the object it is handed and to objects it creates, and to no other.
\<close>

theorem callSwagger_keeps_caller_options:
  assumes "writes_argument_only (parseBodyParams sw (params oper))"
      and "returns_argument_or_new (parseBodyParams sw (params oper))"
      and "writes_argument_only (operation_call sw)"
      and "first args = VObject a" and "a < length h"
  shows "fst (clone (first args) h) = VObject (length h) \<and>
         snd (clone (first args) h) ! length h = h ! a \<and>
         a < length (snd (callSwagger e sw oper args h)) \<and>
         snd (callSwagger e sw oper args h) ! a = h ! a"
proof -
  obtain options h1 where p: "prepare sw oper args h = (options, h1)"
    by (cases "prepare sw oper args h")
  from prepare_frame[OF assms(1,2,5), of args] p
  have h1: "length h \<le> length h1" "h1 ! a = h ! a" "options \<noteq> VObject a" by auto
  with assms(5) have a1: "a < length h1" by simp
  from assms(3) a1 h1(3)
  have "length h1 \<le> length (snd (operation_call sw options h1))"
       "snd (operation_call sw options h1) ! a = h1 ! a"
    by (auto simp: writes_argument_only_def)
  with h1 a1 p have "a < length (snd (callSwagger e sw oper args h)) \<and>
         snd (callSwagger e sw oper args h) ! a = h ! a"
    by (auto simp: callSwagger_def split: prod.splits)
  with assms(4,5) show ?thesis by (simp add: clone_def)
qed

text \<open>With \<open>demo_parseBodyParams\<close> and \<open>demo_call\<close>, which both alter the options they
  are handed, the caller's options at position 0 are as before the call and the copy at
  position 2 has been altered.\<close>

theorem callSwagger_keeps_caller_options_witness:
  "writes_argument_only (parseBodyParams (demo_swagger created) (params demo_originate)) \<and>
   returns_argument_or_new (parseBodyParams (demo_swagger created) (params demo_originate)) \<and>
   writes_argument_only (operation_call (demo_swagger created)) \<and>
   first [VObject 0, VFunction 7] = VObject 0 \<and> 0 < length demo_heap \<and>
   snd (callSwagger demo_env (demo_swagger created) demo_originate
          [VObject 0, VFunction 7] demo_heap) ! 0 =
     [(''endpoint'', VString ''PJSIP/softphone''), (''app'', VString ''u''),
      (''variables'', VObject 1)] \<and>
   snd (callSwagger demo_env (demo_swagger created) demo_originate
          [VObject 0, VFunction 7] demo_heap) ! 2 =
     [(''endpoint'', VString ''PJSIP/softphone''), (''app'', VString ''u''),
      (''body'', VObject 3), (''headers'', VNull)]"
proof -
  have w: "writes_argument_only (parseBodyParams (demo_swagger created) (params demo_originate))"
    by (simp add: demo_swagger_def demo_parseBodyParams_frame)
  have r: "returns_argument_or_new (parseBodyParams (demo_swagger created) (params demo_originate))"
    by (simp add: demo_swagger_def demo_parseBodyParams_returns)
  have o: "writes_argument_only (operation_call (demo_swagger created))"
    by (simp add: demo_swagger_def demo_call_frame)
  have f: "first [VObject 0, VFunction 7] = VObject 0" by simp
  have l: "0 < length demo_heap" by (simp add: demo_heap_def)
  from callSwagger_keeps_caller_options[OF w r o f l, of demo_env]
  have "snd (callSwagger demo_env (demo_swagger created) demo_originate
          [VObject 0, VFunction 7] demo_heap) ! 0 = demo_heap ! 0"
    by simp
  with w r o l show ?thesis
    by (simp add: demo_call_heap)
qed

subsection \<open>The user's callback\<close>

text \<open>
  Claim C7. When the operation completes with an error that carries the body of the
  response (a truthy \<^verbatim>\<open>err.data\<close>), the callback of the caller is called with one argument,
  a \<^verbatim>\<open>new Error\<close> whose message is that body read as a string, character for character.
\<close>

theorem error_message_is_response_body:
  assumes "last_arg args = VFunction f"
      and "reply_of sw oper args h = Failure (Err (Some d))"
      and "truthy d"
  shows "fst (callSwagger e sw oper args h) =
           CallbackInvoked f (NewError (body_toString d)) None"
  using assms by (simp add: callSwagger_eq complete_def swaggerError_def)

text \<open>A reply 404 with the body \<^verbatim>\<open>{"message":"Bridge not found"}\<close>: the message of the
  error is that text.\<close>

theorem error_message_is_response_body_witness:
  "last_arg [VObject 0, VFunction 7] = VFunction 7 \<and>
   reply_of (demo_swagger not_found) demo_originate [VObject 0, VFunction 7] demo_heap =
     Failure (Err (Some (Buffer ''{\"message\":\"Bridge not found\"}''))) \<and>
   truthy (Buffer ''{\"message\":\"Bridge not found\"}'') \<and>
   fst (callSwagger demo_env (demo_swagger not_found) demo_originate
          [VObject 0, VFunction 7] demo_heap) =
     CallbackInvoked 7 (NewError ''{\"message\":\"Bridge not found\"}'') None"
proof -
  have a: "last_arg [VObject 0, VFunction 7] = VFunction 7" by simp
  have b: "reply_of (demo_swagger not_found) demo_originate [VObject 0, VFunction 7] demo_heap =
     Failure (Err (Some (Buffer ''{\"message\":\"Bridge not found\"}'')))"
    by (simp add: reply_of_def prepare_def clone_def demo_swagger_def demo_parseBodyParams_def
          demo_call_def demo_originate_def demo_heap_def not_found_def Let_def)
  have c: "truthy (Buffer ''{\"message\":\"Bridge not found\"}'')" by simp
  from error_message_is_response_body[OF a b c, of demo_env] a b c
  show ?thesis by simp
qed

text \<open>
  Claim C9. When the last argument of an operation call is not a function, a response is
  dropped without anything being called, and an error makes the call of the last argument
  throw a \<^verbatim>\<open>TypeError\<close>: \<^verbatim>\<open>processResponse\<close> tests \<^verbatim>\<open>_.isFunction(userCallback)\<close>,
  \<^verbatim>\<open>swaggerError\<close> does not.
\<close>

theorem no_callback_fails_on_error_only:
  assumes "\<not> isFunction (last_arg args)"
  shows "(\<forall>data. reply_of sw oper args h = Response data \<longrightarrow>
            fst (callSwagger e sw oper args h) = NothingCalled) \<and>
         (\<forall>err. reply_of sw oper args h = Failure err \<longrightarrow>
            fst (callSwagger e sw oper args h) = CallThrown TypeError)"
proof -
  from assms have a: "complete e oper (last_arg args) (Response d') = NothingCalled" for d'
    by (cases "last_arg args") (auto simp: complete_def processResponse_def)
  from assms have b: "complete e oper (last_arg args) (Failure err') = CallThrown TypeError" for err'
    by (cases "last_arg args") (auto simp: complete_def swaggerError_def Let_def)
  show ?thesis
    by (simp add: a b callSwagger_eq)
qed

text \<open>An operation called with its options and no callback, once answered with a
  response and once with an error.\<close>

theorem no_callback_fails_on_error_only_witness:
  "\<not> isFunction (last_arg [VObject 0]) \<and>
   reply_of (demo_swagger created) demo_originate [VObject 0] demo_heap =
     Response (Buffer ''{\"id\":\"1\"}'') \<and>
   fst (callSwagger demo_env (demo_swagger created) demo_originate [VObject 0] demo_heap) =
     NothingCalled \<and>
   reply_of (demo_swagger not_found) demo_originate [VObject 0] demo_heap =
     Failure (Err (Some (Buffer ''{\"message\":\"Bridge not found\"}''))) \<and>
   fst (callSwagger demo_env (demo_swagger not_found) demo_originate [VObject 0] demo_heap) =
     CallThrown TypeError"
proof -
  have n: "\<not> isFunction (last_arg [VObject 0])" by simp
  have a: "reply_of (demo_swagger created) demo_originate [VObject 0] demo_heap =
     Response (Buffer ''{\"id\":\"1\"}'')"
    by (simp add: reply_of_def prepare_def clone_def demo_swagger_def demo_parseBodyParams_def
          demo_call_def demo_originate_def demo_heap_def created_def Let_def)
  have b: "reply_of (demo_swagger not_found) demo_originate [VObject 0] demo_heap =
     Failure (Err (Some (Buffer ''{\"message\":\"Bridge not found\"}'')))"
    by (simp add: reply_of_def prepare_def clone_def demo_swagger_def demo_parseBodyParams_def
          demo_call_def demo_originate_def demo_heap_def not_found_def Let_def)
  from no_callback_fails_on_error_only[OF n, of "demo_swagger created" demo_originate demo_heap demo_env]
       no_callback_fails_on_error_only[OF n, of "demo_swagger not_found" demo_originate demo_heap demo_env]
       n a b
  show ?thesis by simp
qed

end
